theory Spec2Isabelle
  imports Main
begin

section \<open>Strings as the detectors use them\<close>

text \<open>
  Environment values, file contents and host names are JavaScript strings. They are modelled
  as \<open>string\<close>; every literal the detectors compare against is ASCII.
  \<open>startsWith\<close> and \<open>str_includes\<close> are \<open>String.prototype.startsWith\<close> and
  \<open>String.prototype.includes\<close> with the receiver first.
\<close>

fun startsWith :: "string \<Rightarrow> string \<Rightarrow> bool" where
  "startsWith s [] = True"
| "startsWith [] (p # ps) = False"
| "startsWith (c # cs) (p # ps) = (c = p \<and> startsWith cs ps)"

fun str_includes :: "string \<Rightarrow> string \<Rightarrow> bool" where
  "str_includes [] sub = (sub = [])"
| "str_includes (c # cs) sub = (startsWith (c # cs) sub \<or> str_includes cs sub)"

text \<open>
  \<open>toLowerCase\<close> on the ASCII letters; every other character is kept. The strings it is
  compared with (\<open>true\<close>, \<open>microsoft\<close>) consist of ASCII letters only.
\<close>

definition toLowerChar :: "char \<Rightarrow> char" where
  "toLowerChar c =
     (case map_of (zip ''ABCDEFGHIJKLMNOPQRSTUVWXYZ'' ''abcdefghijklmnopqrstuvwxyz'') c of
        Some l \<Rightarrow> l
      | None \<Rightarrow> c)"

definition toLowerCase :: "string \<Rightarrow> string" where
  "toLowerCase s = map toLowerChar s"

text \<open>
  \<open>if (s)\<close> on a value of type \<open>string | undefined\<close> or \<open>string | null\<close>: the value
  is there and is not the empty string. \<open>the_string\<close> reads such a value; the empty string
  stands for the absent one, which the callers have excluded.
\<close>

definition truthy :: "string option \<Rightarrow> bool" where
  "truthy v = (case v of None \<Rightarrow> False | Some s \<Rightarrow> s \<noteq> [])"

definition the_string :: "string option \<Rightarrow> string" where
  "the_string v = (case v of None \<Rightarrow> [] | Some s \<Rightarrow> s)"

definition isDigit :: "char \<Rightarrow> bool" where
  "isDigit c = (c \<in> set ''0123456789'')"

definition isLowerAlnum :: "char \<Rightarrow> bool" where
  "isLowerAlnum c = (c \<in> set ''abcdefghijklmnopqrstuvwxyz0123456789'')"

section \<open>core/cache.ts\<close>

text \<open>
  \<open>Date.now()\<close> is an explicit argument \<open>now\<close> (milliseconds). The \<open>Map\<close> behind the
  cache is a partial function from keys to entries; \<open>size\<close> counts its domain.
\<close>

record 'v CacheEntry =
  entry_value :: 'v
  timestamp :: int
  timeout :: int

record 'v Cache =
  store :: "string \<rightharpoonup> 'v CacheEntry"
  enabled :: bool

definition DEFAULT_CACHE_TIMEOUT :: int where
  "DEFAULT_CACHE_TIMEOUT = 60000"

text \<open>The state of the singleton when \<open>Cache.getInstance\<close> first creates it.\<close>

definition new_Cache :: "'v Cache" where
  "new_Cache = \<lparr>store = Map.empty, enabled = True\<rparr>"

definition cache_get :: "'v Cache \<Rightarrow> string \<Rightarrow> int \<Rightarrow> 'v option \<times> 'v Cache" where
  "cache_get c key now =
     (if \<not> enabled c then (None, c)
      else case store c key of
        None \<Rightarrow> (None, c)
      | Some entry \<Rightarrow>
          if now - timestamp entry > timeout entry
          then (None, c\<lparr>store := (store c)(key := None)\<rparr>)
          else (Some (entry_value entry), c))"

text \<open>The third parameter of \<open>set\<close> is optional; \<open>None\<close> is the omitted argument.\<close>

definition cache_set :: "'v Cache \<Rightarrow> string \<Rightarrow> 'v \<Rightarrow> int option \<Rightarrow> int \<Rightarrow> 'v Cache" where
  "cache_set c key v timeout_arg now =
     (if \<not> enabled c then c
      else c\<lparr>store := (store c)(key \<mapsto>
             \<lparr>entry_value = v, timestamp = now,
              timeout = (case timeout_arg of None \<Rightarrow> DEFAULT_CACHE_TIMEOUT | Some t \<Rightarrow> t)\<rparr>)\<rparr>)"

definition cache_has :: "'v Cache \<Rightarrow> string \<Rightarrow> int \<Rightarrow> bool \<times> 'v Cache" where
  "cache_has c key now =
     (if \<not> enabled c then (False, c)
      else case store c key of
        None \<Rightarrow> (False, c)
      | Some entry \<Rightarrow>
          if now - timestamp entry > timeout entry
          then (False, c\<lparr>store := (store c)(key := None)\<rparr>)
          else (True, c))"

definition cache_delete :: "'v Cache \<Rightarrow> string \<Rightarrow> bool \<times> 'v Cache" where
  "cache_delete c key = (store c key \<noteq> None, c\<lparr>store := (store c)(key := None)\<rparr>)"

definition cache_clear :: "'v Cache \<Rightarrow> 'v Cache" where
  "cache_clear c = c\<lparr>store := Map.empty\<rparr>"

definition cache_enable :: "'v Cache \<Rightarrow> 'v Cache" where
  "cache_enable c = c\<lparr>enabled := True\<rparr>"

definition cache_disable :: "'v Cache \<Rightarrow> 'v Cache" where
  "cache_disable c = cache_clear (c\<lparr>enabled := False\<rparr>)"

definition cache_isEnabled :: "'v Cache \<Rightarrow> bool" where
  "cache_isEnabled c = enabled c"

definition cache_size :: "'v Cache \<Rightarrow> nat" where
  "cache_size c = card (dom (store c))"

section \<open>utils/process.ts and utils/file.ts: what a detector can observe\<close>

datatype error = Error string

text \<open>\<open>`${error}`\<close> for an \<open>Error\<close> object.\<close>

fun error_toString :: "error \<Rightarrow> string" where
  "error_toString (Error message) = ''Error: '' @ message"

text \<open>
  The state of the process and the machine that the detectors read: \<open>process.env\<close>, the
  file system as seen through \<open>fs.readFileSync\<close>, \<open>fs.accessSync\<close> and \<open>fs.statSync\<close>
  (a failing call is caught in utils/file.ts and becomes \<open>None\<close> or \<open>False\<close>), and the
  results of the \<open>os\<close> module's functions, each of which either returns or throws.
  \<open>os.version\<close> does not exist on every Node release; \<open>None\<close> is the missing function.
\<close>

record environment =
  processEnv :: "string \<rightharpoonup> string"
  fs_content :: "string \<rightharpoonup> string"
  fs_access :: "string \<Rightarrow> bool"
  fs_directory :: "string \<Rightarrow> bool"
  os_platform :: "error + string"
  os_release :: "error + string"
  os_version :: "(error + string) option"
  os_arch :: "error + string"
  os_hostname :: "error + string"

definition getEnv :: "environment \<Rightarrow> string \<Rightarrow> string option" where
  "getEnv env key = processEnv env key"

definition hasEnv :: "environment \<Rightarrow> string \<Rightarrow> bool" where
  "hasEnv env key = (processEnv env key \<noteq> None)"

definition getEnvBoolean :: "environment \<Rightarrow> string \<Rightarrow> bool \<Rightarrow> bool" where
  "getEnvBoolean env key defaultValue =
     (let v = getEnv env key
      in if \<not> truthy v then defaultValue
         else toLowerCase (the_string v) = ''true'' \<or> the_string v = ''1'')"

definition fileExists :: "environment \<Rightarrow> string \<Rightarrow> bool" where
  "fileExists env path = fs_access env path"

definition readFile :: "environment \<Rightarrow> string \<Rightarrow> string option" where
  "readFile env path = fs_content env path"

definition isDirectory :: "environment \<Rightarrow> string \<Rightarrow> bool" where
  "isDirectory env path = fs_directory env path"

section \<open>core/constants.ts\<close>

definition CI_ENV_VARS_CI :: string where "CI_ENV_VARS_CI = ''CI''"
definition CI_ENV_VARS_CONTINUOUS_INTEGRATION :: string where
  "CI_ENV_VARS_CONTINUOUS_INTEGRATION = ''CONTINUOUS_INTEGRATION''"
definition CI_ENV_VARS_BUILD_NUMBER :: string where "CI_ENV_VARS_BUILD_NUMBER = ''BUILD_NUMBER''"
definition CI_ENV_VARS_CI_NAME :: string where "CI_ENV_VARS_CI_NAME = ''CI_NAME''"

text \<open>\<open>Object.values(CI_PROVIDER_ENV_VARS)\<close>, in the order of the object literal.\<close>

definition CI_PROVIDER_ENV_VARS :: "string list" where
  "CI_PROVIDER_ENV_VARS =
     [''GITHUB_ACTIONS'', ''GITLAB_CI'', ''TRAVIS'', ''CIRCLECI'', ''JENKINS_URL'',
      ''BITBUCKET_BUILD_NUMBER'', ''TEAMCITY_VERSION'', ''APPVEYOR'', ''CODEBUILD_BUILD_ID'',
      ''TF_BUILD'']"

definition DOCKER_ENV :: string where "DOCKER_ENV = ''/.dockerenv''"
definition DOCKER_INIT :: string where "DOCKER_INIT = ''/.dockerinit''"
definition WSL_INTEROP :: string where "WSL_INTEROP = ''/run/WSL''"
definition KUBERNETES_SERVICE :: string where
  "KUBERNETES_SERVICE = ''/var/run/secrets/kubernetes.io''"

definition WSL_ENV_VAR :: string where "WSL_ENV_VAR = ''WSL_DISTRO_NAME''"
definition WSL_PROC_VERSION :: string where "WSL_PROC_VERSION = ''Microsoft''"
definition WSL_PROC_SYS :: string where
  "WSL_PROC_SYS = ''/proc/sys/fs/binfmt_misc/WSLInterop''"

section \<open>detectors/os.ts\<close>

datatype OSType = os_windows | os_macos | os_linux | os_unknown

record OSInfo =
  platform :: string
  type :: OSType
  version :: string
  release :: string
  arch :: string
  isWindows :: bool
  isMacOS :: bool
  isLinux :: bool

text \<open>The record of the \<open>catch\<close> block.\<close>

definition os_fallback :: OSInfo where
  "os_fallback =
     \<lparr>platform = ''linux'', type = os_unknown, version = ''unknown'', release = ''unknown'',
      arch = ''unknown'', isWindows = False, isMacOS = False, isLinux = False\<rparr>"

text \<open>The \<open>switch (platform)\<close>: the type and the three flags it assigns.\<close>

definition os_classify :: "string \<Rightarrow> OSType \<times> bool \<times> bool \<times> bool" where
  "os_classify p =
     (if p = ''win32'' then (os_windows, True, False, False)
      else if p = ''darwin'' then (os_macos, False, True, False)
      else if p = ''linux'' then (os_linux, False, False, True)
      else (os_unknown, False, False, False))"

definition os_performDetection :: "environment \<Rightarrow> OSInfo" where
  "os_performDetection env =
     (case os_platform env of
        Inl e \<Rightarrow> os_fallback
      | Inr p \<Rightarrow>
     (case os_release env of
        Inl e \<Rightarrow> os_fallback
      | Inr r \<Rightarrow>
     (case (case os_version env of None \<Rightarrow> Inr r | Some res \<Rightarrow> res) of
        Inl e \<Rightarrow> os_fallback
      | Inr v \<Rightarrow>
     (case os_arch env of
        Inl e \<Rightarrow> os_fallback
      | Inr a \<Rightarrow>
          (case os_classify p of
             (t, w, m, l) \<Rightarrow>
               \<lparr>platform = p, type = t, version = v, release = r, arch = a,
                isWindows = w, isMacOS = m, isLinux = l\<rparr>)))))"

section \<open>detectors/container.ts\<close>

datatype ContainerType = ct_docker | ct_wsl | ct_kubernetes | ct_unknown

record ContainerInfo =
  isContainer :: bool
  isDocker :: bool
  isWSL :: bool
  isKubernetes :: bool
  containerType :: "ContainerType option"
  wslVersion :: "nat option"
  wslDistro :: "string option"

text \<open>The object \<open>{ isWSL, version?, distro? }\<close> that \<open>detectWSL\<close> returns.\<close>

record WSLInfo =
  wsl_isWSL :: bool
  wsl_version :: "nat option"
  wsl_distro :: "string option"

text \<open>
  \<open>content && (content.includes(a) || ...)\<close>: the content was read, is not the empty
  string, and contains one of the markers.
\<close>

definition contentIncludes :: "string option \<Rightarrow> string list \<Rightarrow> bool" where
  "contentIncludes content markers =
     (truthy content \<and> list_ex (str_includes (the_string content)) markers)"

definition detectDocker :: "environment \<Rightarrow> bool" where
  "detectDocker env =
     (if fileExists env DOCKER_ENV \<or> fileExists env DOCKER_INIT then True
      else if contentIncludes (readFile env ''/proc/self/cgroup'') [''docker'', ''containerd'']
        then True
      else if contentIncludes (readFile env ''/proc/1/cgroup'') [''docker'', ''containerd'']
        then True
      else if contentIncludes (readFile env ''/proc/self/mountinfo'') [''docker''] then True
      else False)"

subsection \<open>The kernel version in /proc/version\<close>

definition digitValue :: "char \<Rightarrow> nat" where
  "digitValue c =
     (case map_of (zip ''0123456789'' [0, 1, 2, 3, 4, 5, 6, 7, 8, 9]) c of
        Some d \<Rightarrow> d
      | None \<Rightarrow> 0)"

text \<open>\<open>parseInt(digits, 10)\<close> on a string of decimal digits.\<close>

definition parseInt :: "string \<Rightarrow> nat" where
  "parseInt ds = foldl (\<lambda>n c. 10 * n + digitValue c) 0 ds"

text \<open>
  \<open>/(\d+)\.(\d+)\.(\d+)/\<close> tried at the head of the string; the result is the first
  group. \<open>\d+\<close> is greedy and what follows it is a dot or the end of the pattern, so only
  the longest run of digits can be followed by a match of the rest.
\<close>

definition matchTriadAt :: "string \<Rightarrow> string option" where
  "matchTriadAt s =
     (let d1 = takeWhile isDigit s; r1 = dropWhile isDigit s
      in if d1 = [] then None
         else case r1 of
           [] \<Rightarrow> None
         | c1 # s2 \<Rightarrow>
             if c1 \<noteq> CHR ''.'' then None
             else let d2 = takeWhile isDigit s2; r2 = dropWhile isDigit s2
               in if d2 = [] then None
                  else case r2 of
                    [] \<Rightarrow> None
                  | c2 # s3 \<Rightarrow>
                      if c2 \<noteq> CHR ''.'' then None
                      else if takeWhile isDigit s3 = [] then None
                      else Some d1)"

text \<open>\<open>String.prototype.match\<close> without the global flag: the leftmost match.\<close>

fun kernelMatch :: "string \<Rightarrow> string option" where
  "kernelMatch [] = None"
| "kernelMatch (c # cs) =
     (case matchTriadAt (c # cs) of
        Some g \<Rightarrow> Some g
      | None \<Rightarrow> kernelMatch cs)"


definition getWSLVersion :: "environment \<Rightarrow> nat option" where
  "getWSLVersion env =
     (let content = readFile env ''/proc/version''; procVersion = the_string content
      in if truthy content then
           if str_includes procVersion ''WSL2''
              \<or> str_includes procVersion ''microsoft-standard-WSL2'' then Some 2
           else if str_includes procVersion ''Microsoft'' \<or> str_includes procVersion ''WSL''
           then (case kernelMatch procVersion of
                   Some g \<Rightarrow> if 5 \<le> parseInt g then Some 2 else Some 1
                 | None \<Rightarrow> Some 1)
           else None
         else None)"

subsection \<open>The distribution name in /etc/os-release\<close>

text \<open>
  \<open>/^NAME="?(.+?)"?$/m\<close>. With the \<open>m\<close> flag \<open>^\<close> and \<open>$\<close> match at line
  terminators and \<open>.\<close> matches none, so the match lies within one line. On a line
  \<open>NAME=rest\<close> the opening quote is taken when something is left for the group; the
  lazy group then ends before a closing quote at the end of the line when that leaves
  it non-empty, and at the end of the line otherwise.
\<close>

definition isLineTerminator :: "char \<Rightarrow> bool" where
  "isLineTerminator c = (c = CHR 0x0A \<or> c = CHR 0x0D)"

fun splitLines :: "string \<Rightarrow> string list" where
  "splitLines [] = [[]]"
| "splitLines (c # cs) =
     (if isLineTerminator c then [] # splitLines cs
      else case splitLines cs of
        [] \<Rightarrow> [[c]]
      | l # ls \<Rightarrow> (c # l) # ls)"

definition matchNameLine :: "string \<Rightarrow> string option" where
  "matchNameLine l =
     (if startsWith l ''NAME='' then
        (let rest = drop 5 l;
             body = (case rest of
                       [] \<Rightarrow> []
                     | q # after \<Rightarrow> if q = CHR 0x22 \<and> after \<noteq> [] then after else rest)
         in if body = [] then None
            else if 2 \<le> length body \<and> last body = CHR 0x22 then Some (butlast body)
            else Some body)
      else None)"

fun firstMatch :: "('a \<Rightarrow> 'b option) \<Rightarrow> 'a list \<Rightarrow> 'b option" where
  "firstMatch f [] = None"
| "firstMatch f (x # xs) = (case f x of Some y \<Rightarrow> Some y | None \<Rightarrow> firstMatch f xs)"

definition getWSLDistro :: "environment \<Rightarrow> string option" where
  "getWSLDistro env =
     (let envDistro = getEnv env WSL_ENV_VAR
      in if truthy envDistro then envDistro
         else let osRelease = readFile env ''/etc/os-release''
           in if truthy osRelease
              then firstMatch matchNameLine (splitLines (the_string osRelease))
              else None)"

subsection \<open>The three probes and their combination\<close>

text \<open>\<open>os.platform()\<close> is called outside any \<open>try\<close>: if it throws, so does \<open>detectWSL\<close>.\<close>

definition detectWSL :: "environment \<Rightarrow> error + WSLInfo" where
  "detectWSL env =
     (case os_platform env of
        Inl e \<Rightarrow> Inl e
      | Inr p \<Rightarrow>
          if p = ''win32'' then Inr \<lparr>wsl_isWSL = False, wsl_version = None, wsl_distro = None\<rparr>
          else if truthy (getEnv env WSL_ENV_VAR)
          then Inr \<lparr>wsl_isWSL = True, wsl_version = getWSLVersion env,
                    wsl_distro = getEnv env WSL_ENV_VAR\<rparr>
          else if truthy (readFile env ''/proc/version'')
                  \<and> str_includes (toLowerCase (the_string (readFile env ''/proc/version'')))
                       (toLowerCase WSL_PROC_VERSION)
          then Inr \<lparr>wsl_isWSL = True, wsl_version = getWSLVersion env,
                    wsl_distro = getWSLDistro env\<rparr>
          else if fileExists env WSL_PROC_SYS \<or> isDirectory env WSL_INTEROP
          then Inr \<lparr>wsl_isWSL = True, wsl_version = getWSLVersion env,
                    wsl_distro = getWSLDistro env\<rparr>
          else if hasEnv env ''WSLENV'' \<or> hasEnv env ''WSL_INTEROP''
          then Inr \<lparr>wsl_isWSL = True, wsl_version = getWSLVersion env,
                    wsl_distro = getWSLDistro env\<rparr>
          else Inr \<lparr>wsl_isWSL = False, wsl_version = None, wsl_distro = None\<rparr>)"

text \<open>
  \<open>/^[a-z0-9]+-[a-z0-9]+-[a-z0-9]+(-[a-z0-9]+)*$/\<close>: at least three segments between
  dashes, each a non-empty run of lower-case letters and digits.
\<close>

fun splitDash :: "string \<Rightarrow> string list" where
  "splitDash [] = [[]]"
| "splitDash (c # cs) =
     (if c = CHR ''-'' then [] # splitDash cs
      else case splitDash cs of
        [] \<Rightarrow> [[c]]
      | l # ls \<Rightarrow> (c # l) # ls)"

definition k8sHostname :: "string \<Rightarrow> bool" where
  "k8sHostname h =
     (let segments = splitDash h
      in 3 \<le> length segments
         \<and> list_all (\<lambda>seg. seg \<noteq> [] \<and> list_all isLowerAlnum seg) segments)"

text \<open>\<open>os.hostname()\<close> is reached only when the first two checks fail; it may throw.\<close>

definition detectKubernetes :: "environment \<Rightarrow> error + bool" where
  "detectKubernetes env =
     (if isDirectory env KUBERNETES_SERVICE then Inr True
      else if hasEnv env ''KUBERNETES_SERVICE_HOST'' \<or> hasEnv env ''KUBERNETES_PORT''
        then Inr True
      else case os_hostname env of
        Inl e \<Rightarrow> Inl e
      | Inr hostname \<Rightarrow>
          if hostname \<noteq> [] \<and> k8sHostname hostname
             \<and> fileExists env ''/var/run/secrets/kubernetes.io/serviceaccount/token''
          then Inr True
          else Inr False)"

definition container_performDetection :: "environment \<Rightarrow> error + ContainerInfo" where
  "container_performDetection env =
     (let docker = detectDocker env
      in case detectWSL env of
           Inl e \<Rightarrow> Inl e
         | Inr wslInfo \<Rightarrow>
             (case detectKubernetes env of
                Inl e \<Rightarrow> Inl e
              | Inr k8s \<Rightarrow>
                  Inr \<lparr>isContainer = docker \<or> wsl_isWSL wslInfo \<or> k8s,
                       isDocker = docker,
                       isWSL = wsl_isWSL wslInfo,
                       isKubernetes = k8s,
                       containerType =
                         (if docker then Some ct_docker
                          else if wsl_isWSL wslInfo then Some ct_wsl
                          else if k8s then Some ct_kubernetes
                          else None),
                       wslVersion = wsl_version wslInfo,
                       wslDistro = wsl_distro wslInfo\<rparr>))"

section \<open>detectors/ci.ts\<close>

datatype CIProvider =
  github_actions | gitlab_ci | jenkins | circleci | travis_ci | azure_pipelines
  | bitbucket_pipelines | teamcity | appveyor | codebuild | ci_unknown

text \<open>Every field but \<open>isCI\<close> is optional; \<open>None\<close> is the field that is not there.\<close>

record CIInfo =
  isCI :: bool
  name :: "string option"
  isPR :: "bool option"
  provider :: "CIProvider option"

definition detectCI :: "environment \<Rightarrow> bool" where
  "detectCI env =
     (if getEnvBoolean env CI_ENV_VARS_CI False
         \<or> getEnvBoolean env CI_ENV_VARS_CONTINUOUS_INTEGRATION False
         \<or> hasEnv env CI_ENV_VARS_BUILD_NUMBER
         \<or> hasEnv env CI_ENV_VARS_CI_NAME
      then True
      else list_ex (hasEnv env) CI_PROVIDER_ENV_VARS)"

definition detectCIProvider :: "environment \<Rightarrow> CIProvider" where
  "detectCIProvider env =
     (if getEnvBoolean env ''GITHUB_ACTIONS'' False then github_actions
      else if getEnvBoolean env ''GITLAB_CI'' False then gitlab_ci
      else if getEnvBoolean env ''TRAVIS'' False then travis_ci
      else if getEnvBoolean env ''CIRCLECI'' False then circleci
      else if hasEnv env ''JENKINS_URL'' then jenkins
      else if getEnvBoolean env ''TF_BUILD'' False then azure_pipelines
      else if hasEnv env ''BITBUCKET_BUILD_NUMBER'' then bitbucket_pipelines
      else if hasEnv env ''TEAMCITY_VERSION'' then teamcity
      else if getEnvBoolean env ''APPVEYOR'' False then appveyor
      else if hasEnv env ''CODEBUILD_BUILD_ID'' then codebuild
      else ci_unknown)"

fun getCIName :: "environment \<Rightarrow> CIProvider \<Rightarrow> string" where
  "getCIName env github_actions = ''GitHub Actions''"
| "getCIName env gitlab_ci = ''GitLab CI''"
| "getCIName env travis_ci = ''Travis CI''"
| "getCIName env circleci = ''CircleCI''"
| "getCIName env jenkins = ''Jenkins''"
| "getCIName env azure_pipelines = ''Azure Pipelines''"
| "getCIName env bitbucket_pipelines = ''Bitbucket Pipelines''"
| "getCIName env teamcity = ''TeamCity''"
| "getCIName env appveyor = ''AppVeyor''"
| "getCIName env codebuild = ''AWS CodeBuild''"
| "getCIName env ci_unknown =
     (if truthy (getEnv env CI_ENV_VARS_CI_NAME) then the_string (getEnv env CI_ENV_VARS_CI_NAME)
      else ''Unknown CI'')"

fun detectPullRequest :: "environment \<Rightarrow> CIProvider \<Rightarrow> bool" where
  "detectPullRequest env github_actions = (getEnv env ''GITHUB_EVENT_NAME'' = Some ''pull_request'')"
| "detectPullRequest env gitlab_ci =
     (hasEnv env ''CI_MERGE_REQUEST_ID'' \<or> hasEnv env ''CI_EXTERNAL_PULL_REQUEST_IID'')"
| "detectPullRequest env travis_ci = (getEnv env ''TRAVIS_PULL_REQUEST'' \<noteq> Some ''false'')"
| "detectPullRequest env circleci =
     (hasEnv env ''CIRCLE_PULL_REQUEST'' \<or> hasEnv env ''CIRCLE_PR_NUMBER'')"
| "detectPullRequest env jenkins = (hasEnv env ''CHANGE_ID'' \<or> hasEnv env ''ghprbPullId'')"
| "detectPullRequest env azure_pipelines = hasEnv env ''SYSTEM_PULLREQUEST_PULLREQUESTID''"
| "detectPullRequest env bitbucket_pipelines = hasEnv env ''BITBUCKET_PR_ID''"
| "detectPullRequest env teamcity = hasEnv env ''TEAMCITY_PULL_REQUEST_NUMBER''"
| "detectPullRequest env appveyor = hasEnv env ''APPVEYOR_PULL_REQUEST_NUMBER''"
| "detectPullRequest env codebuild =
     ((hasEnv env ''CODEBUILD_WEBHOOK_HEAD_REF''
        \<and> (case getEnv env ''CODEBUILD_WEBHOOK_HEAD_REF'' of
              None \<Rightarrow> False
            | Some ref \<Rightarrow> startsWith ref ''refs/pull/''))
      \<or> False)"
| "detectPullRequest env ci_unknown =
     (hasEnv env ''PR_NUMBER'' \<or> hasEnv env ''PULL_REQUEST_ID'' \<or> hasEnv env ''PULL_REQUEST'')"

definition ci_performDetection :: "environment \<Rightarrow> CIInfo" where
  "ci_performDetection env =
     (if \<not> detectCI env then \<lparr>isCI = False, name = None, isPR = None, provider = None\<rparr>
      else let p = detectCIProvider env
        in \<lparr>isCI = True, name = Some (getCIName env p),
            isPR = Some (detectPullRequest env p), provider = Some p\<rparr>)"

text \<open>
  The provider variables by the test that \<open>detectCIProvider\<close> applies to them:
  \<open>getEnvBoolean\<close> for the first six, \<open>hasEnv\<close> for the other four.
\<close>

definition booleanProviderVars :: "string list" where
  "booleanProviderVars =
     [''GITHUB_ACTIONS'', ''GITLAB_CI'', ''TRAVIS'', ''CIRCLECI'', ''TF_BUILD'', ''APPVEYOR'']"

definition presenceProviderVars :: "string list" where
  "presenceProviderVars =
     [''JENKINS_URL'', ''BITBUCKET_BUILD_NUMBER'', ''TEAMCITY_VERSION'', ''CODEBUILD_BUILD_ID'']"

section \<open>core/detector.ts: BaseDetector\<close>

text \<open>
  \<open>DetectorOptions\<close>: every field is optional. A field of an options object is not
  there, or is there with the value \<open>undefined\<close>, or is there with a value.
\<close>

datatype 'a field = Absent | Undefined | Given 'a

record DetectorOptions =
  cache :: "bool field"
  cacheTimeout :: "int field"
  async :: "bool field"

definition no_options :: DetectorOptions where
  "no_options = \<lparr>cache = Absent, cacheTimeout = Absent, async = Absent\<rparr>"

text \<open>
  \<open>{ cache: true, cacheTimeout: 60000, async: false, ...options }\<close>: the spread copies
  every field that is there, an \<open>undefined\<close> one too.
\<close>

definition withDefaults :: "DetectorOptions \<Rightarrow> DetectorOptions" where
  "withDefaults opts =
     \<lparr>cache = (case cache opts of Absent \<Rightarrow> Given True | present \<Rightarrow> present),
      cacheTimeout = (case cacheTimeout opts of Absent \<Rightarrow> Given 60000 | present \<Rightarrow> present),
      async = (case async opts of Absent \<Rightarrow> Given False | present \<Rightarrow> present)\<rparr>"

text \<open>\<open>if (this.options.cache)\<close>, \<open>if (this.options.async)\<close>\<close>

definition isOn :: "bool field \<Rightarrow> bool" where
  "isOn flag = (flag = Given True)"

text \<open>
  A field passed as an optional argument: the parameter's default applies when the
  argument is \<open>undefined\<close>.
\<close>

definition argument :: "'a field \<Rightarrow> 'a option" where
  "argument x = (case x of Given v \<Rightarrow> Some v | Absent \<Rightarrow> None | Undefined \<Rightarrow> None)"

text \<open>
  A detector object: its name, its options after the constructor has merged the defaults,
  and its two detection routines. A routine reads the environment and returns a result or
  throws. The results of all detectors have one type \<open>'v\<close>, as the values of the shared
  cache do.
\<close>

record 'v Detector =
  detector_name :: string
  options :: DetectorOptions
  performDetection :: "environment \<Rightarrow> error + 'v"
  performAsyncDetection :: "environment \<Rightarrow> error + 'v"

text \<open>
  A subclass that defines \<open>performDetection\<close> only: \<open>performAsyncDetection\<close> is the one
  inherited from \<open>BaseDetector\<close>, which returns \<open>this.performDetection()\<close>.
\<close>

definition BaseDetector ::
  "string \<Rightarrow> (environment \<Rightarrow> error + 'v) \<Rightarrow> DetectorOptions \<Rightarrow> 'v Detector" where
  "BaseDetector nm routine opts =
     \<lparr>detector_name = nm, options = withDefaults opts,
      performDetection = routine, performAsyncDetection = routine\<rparr>"

definition getCacheKey :: "'v Detector \<Rightarrow> string" where
  "getCacheKey d = ''detector:'' @ detector_name d"

definition reset :: "'v Detector \<Rightarrow> 'v Cache \<Rightarrow> 'v Cache" where
  "reset d c = snd (cache_delete c (getCacheKey d))"

text \<open>
  The first statement of \<open>detectSync\<close> and of \<open>detectAsync\<close>: the cached value, when
  the detector uses the cache and the cache has a live entry.
\<close>

definition lookupCached :: "'v Detector \<Rightarrow> 'v Cache \<Rightarrow> int \<Rightarrow> 'v option \<times> 'v Cache" where
  "lookupCached d c now =
     (if isOn (cache (options d)) then cache_get c (getCacheKey d) now else (None, c))"

text \<open>The last statement before \<open>return result\<close>.\<close>

definition storeResult :: "'v Detector \<Rightarrow> 'v \<Rightarrow> 'v Cache \<Rightarrow> int \<Rightarrow> 'v Cache" where
  "storeResult d result c now =
     (if isOn (cache (options d))
      then cache_set c (getCacheKey d) result (argument (cacheTimeout (options d))) now
      else c)"

definition detectSync ::
  "'v Detector \<Rightarrow> environment \<Rightarrow> 'v Cache \<Rightarrow> int \<Rightarrow> (error + 'v) \<times> 'v Cache" where
  "detectSync d env c now =
     (case lookupCached d c now of
        (Some cached, c1) \<Rightarrow> (Inr cached, c1)
      | (None, c1) \<Rightarrow>
          (case performDetection d env of
             Inl e \<Rightarrow> (Inl e, c1)
           | Inr result \<Rightarrow> (Inr result, storeResult d result c1 now)))"

text \<open>
  \<open>detectAsync\<close> is an \<open>async\<close> function with one \<open>await\<close>. Its call runs the body up to
  the \<open>await\<close>: it returns from the cache, or it has called \<open>performAsyncDetection\<close>,
  whose promise is settled with a result or an error, and is suspended. The continuation
  runs later, on whatever the cache is then.
\<close>

datatype 'v suspended = Resolved 'v | Awaiting "error + 'v"

definition detectAsync_call ::
  "'v Detector \<Rightarrow> environment \<Rightarrow> 'v Cache \<Rightarrow> int \<Rightarrow> 'v suspended \<times> 'v Cache" where
  "detectAsync_call d env c now =
     (case lookupCached d c now of
        (Some cached, c1) \<Rightarrow> (Resolved cached, c1)
      | (None, c1) \<Rightarrow> (Awaiting (performAsyncDetection d env), c1))"

definition detectAsync_resume ::
  "'v Detector \<Rightarrow> 'v suspended \<Rightarrow> 'v Cache \<Rightarrow> int \<Rightarrow> (error + 'v) \<times> 'v Cache" where
  "detectAsync_resume d s c now =
     (case s of
        Resolved cached \<Rightarrow> (Inr cached, c)
      | Awaiting (Inl e) \<Rightarrow> (Inl e, c)
      | Awaiting (Inr result) \<Rightarrow> (Inr result, storeResult d result c now))"

text \<open>The promise of \<open>detectAsync\<close> awaited with nothing running in between.\<close>

definition detectAsync ::
  "'v Detector \<Rightarrow> environment \<Rightarrow> 'v Cache \<Rightarrow> int \<Rightarrow> (error + 'v) \<times> 'v Cache" where
  "detectAsync d env c now =
     (case detectAsync_call d env c now of (s, c1) \<Rightarrow> detectAsync_resume d s c1 now)"

section \<open>index.ts: EnvironmentDetector\<close>

text \<open>
  What a call of \<open>detect()\<close> hands back to the facade: a value, or the promise of a
  suspended \<open>detectAsync\<close>.
\<close>

datatype 'v returned = Value 'v | Promise "'v suspended"

text \<open>
  \<open>detect\<close> as far as its call runs: \<open>detectSync\<close> to the end, or \<open>detectAsync\<close> up to
  its \<open>await\<close>.
\<close>

definition detect ::
  "'v Detector \<Rightarrow> environment \<Rightarrow> 'v Cache \<Rightarrow> int \<Rightarrow> (error + 'v returned) \<times> 'v Cache" where
  "detect d env c now =
     (if isOn (async (options d)) then
        (case detectAsync_call d env c now of (s, c1) \<Rightarrow> (Inr (Promise s), c1))
      else
        (case detectSync d env c now of
           (Inl e, c1) \<Rightarrow> (Inl e, c1)
         | (Inr v, c1) \<Rightarrow> (Inr (Value v), c1)))"

text \<open>
  The facade calls \<open>detect()\<close> on its seven detectors in a fixed order; if a call throws,
  the facade's method is left at once. \<open>callAll\<close> is this first pass: what the calls
  returned, and the error that ended it, if any.
\<close>

fun callAll ::
  "'v Detector list \<Rightarrow> environment \<Rightarrow> 'v Cache \<Rightarrow> int
     \<Rightarrow> ('v returned list \<times> error option) \<times> 'v Cache" where
  "callAll [] env c now = (([], None), c)"
| "callAll (d # ds) env c now =
     (case detect d env c now of
        (Inl e, c1) \<Rightarrow> (([], Some e), c1)
      | (Inr r, c1) \<Rightarrow>
          (case callAll ds env c1 now of
             ((rs, err), c2) \<Rightarrow> ((r # rs, err), c2)))"

text \<open>
  The second pass: the suspended calls are resumed in the order in which they were
  made, and every call has its outcome.
\<close>

fun settleAll ::
  "('v Detector \<times> 'v returned) list \<Rightarrow> 'v Cache \<Rightarrow> int \<Rightarrow> (error + 'v) list \<times> 'v Cache" where
  "settleAll [] c now = ([], c)"
| "settleAll ((d, Value v) # rest) c now =
     (case settleAll rest c now of (outs, c2) \<Rightarrow> (Inr v # outs, c2))"
| "settleAll ((d, Promise s) # rest) c now =
     (case detectAsync_resume d s c now of
        (out, c1) \<Rightarrow> (case settleAll rest c1 now of (outs, c2) \<Rightarrow> (out # outs, c2)))"

text \<open>\<open>Promise.all\<close>: the first rejection, or all the values.\<close>

fun promiseAll :: "(error + 'v) list \<Rightarrow> error + 'v list" where
  "promiseAll [] = Inr []"
| "promiseAll (Inl e # outs) = Inl e"
| "promiseAll (Inr v # outs) = (case promiseAll outs of Inl e \<Rightarrow> Inl e | Inr vs \<Rightarrow> Inr (v # vs))"

record 'a EnvironmentInfo =
  os :: 'a
  container :: 'a
  ci :: 'a
  cloud :: 'a
  node :: 'a
  privileges :: 'a
  mode :: 'a

text \<open>The results in the order of the calls, put into the record by position.\<close>

definition toEnvironmentInfo :: "'a list \<Rightarrow> 'a EnvironmentInfo" where
  "toEnvironmentInfo xs =
     \<lparr>os = xs ! 0, container = xs ! 1, ci = xs ! 2, cloud = xs ! 3, node = xs ! 4,
      privileges = xs ! 5, mode = xs ! 6\<rparr>"

text \<open>
  What a suspended call settles to, what awaiting a returned value gives, and what a
  caller gets who awaits every field of the record of \<open>getEnvironmentInfo\<close>.
\<close>

definition settlesTo :: "'v suspended \<Rightarrow> error + 'v" where
  "settlesTo s = (case s of Resolved v \<Rightarrow> Inr v | Awaiting r \<Rightarrow> r)"

definition awaited :: "'v returned \<Rightarrow> error + 'v" where
  "awaited r = (case r of Value v \<Rightarrow> Inr v | Promise s \<Rightarrow> settlesTo s)"

definition awaitFields :: "'v returned EnvironmentInfo \<Rightarrow> error + 'v EnvironmentInfo" where
  "awaitFields r =
     (case promiseAll [awaited (os r), awaited (container r), awaited (ci r), awaited (cloud r),
                       awaited (node r), awaited (privileges r), awaited (mode r)] of
        Inl e \<Rightarrow> Inl e
      | Inr vs \<Rightarrow> Inr (toEnvironmentInfo vs))"

text \<open>
  The detectors of a facade are all constructed with the same options, so they are all in
  asynchronous mode or all in synchronous mode.
\<close>

definition uniformMode :: "'v Detector list \<Rightarrow> bool" where
  "uniformMode ds = (list_all (\<lambda>d. isOn (async (options d))) ds
                     \<or> list_all (\<lambda>d. \<not> isOn (async (options d))) ds)"

record 'v EnvironmentDetector =
  osDetector :: "'v Detector"
  containerDetector :: "'v Detector"
  ciDetector :: "'v Detector"
  cloudDetector :: "'v Detector"
  nodeDetector :: "'v Detector"
  modeDetector :: "'v Detector"
  privilegeDetector :: "'v Detector"

text \<open>
  The detection routines of the seven detector classes, which the constructor
  instantiates under the names \<open>os\<close>, \<open>container\<close>, \<open>ci\<close>, \<open>cloud\<close>, \<open>node\<close>,
  \<open>mode\<close> and \<open>privileges\<close>.
\<close>

record 'v DetectorClasses =
  OSDetector :: "environment \<Rightarrow> error + 'v"
  ContainerDetector :: "environment \<Rightarrow> error + 'v"
  CIDetector :: "environment \<Rightarrow> error + 'v"
  CloudDetector :: "environment \<Rightarrow> error + 'v"
  NodeDetector :: "environment \<Rightarrow> error + 'v"
  EnvironmentModeDetector :: "environment \<Rightarrow> error + 'v"
  PrivilegeDetector :: "environment \<Rightarrow> error + 'v"

definition instantiate :: "'v DetectorClasses \<Rightarrow> DetectorOptions \<Rightarrow> 'v EnvironmentDetector" where
  "instantiate K opts =
     \<lparr>osDetector = BaseDetector ''os'' (OSDetector K) opts,
      containerDetector = BaseDetector ''container'' (ContainerDetector K) opts,
      ciDetector = BaseDetector ''ci'' (CIDetector K) opts,
      cloudDetector = BaseDetector ''cloud'' (CloudDetector K) opts,
      nodeDetector = BaseDetector ''node'' (NodeDetector K) opts,
      modeDetector = BaseDetector ''mode'' (EnvironmentModeDetector K) opts,
      privilegeDetector = BaseDetector ''privileges'' (PrivilegeDetector K) opts\<rparr>"

text \<open>
  The constructor, on the singleton cache: without an argument the detectors get the
  default options; with one they get it, and \<open>options.cache === false\<close> disables the cache.
\<close>

definition new_EnvironmentDetector ::
  "'v DetectorClasses \<Rightarrow> DetectorOptions option \<Rightarrow> 'v Cache
     \<Rightarrow> 'v EnvironmentDetector \<times> 'v Cache" where
  "new_EnvironmentDetector K arg c =
     (case arg of
        None \<Rightarrow> (instantiate K no_options, c)
      | Some opts \<Rightarrow>
          (instantiate K opts, if cache opts = Given False then cache_disable c else c))"

text \<open>The detectors in the order in which both methods call them.\<close>

definition detectorsInOrder :: "'v EnvironmentDetector \<Rightarrow> 'v Detector list" where
  "detectorsInOrder f =
     [osDetector f, containerDetector f, ciDetector f, cloudDetector f, nodeDetector f,
      privilegeDetector f, modeDetector f]"

text \<open>
  \<open>getEnvironmentInfo\<close> returns the record of what the calls returned, promises
  included. The cache is the one left when the suspended calls have been resumed.
\<close>

definition getEnvironmentInfo ::
  "'v EnvironmentDetector \<Rightarrow> environment \<Rightarrow> 'v Cache \<Rightarrow> int
     \<Rightarrow> (error + 'v returned EnvironmentInfo) \<times> 'v Cache" where
  "getEnvironmentInfo f env c now =
     (case callAll (detectorsInOrder f) env c now of
        ((rs, err), c1) \<Rightarrow>
          (case settleAll (zip (detectorsInOrder f) rs) c1 now of
             (outs, c2) \<Rightarrow>
               (case err of
                  Some e \<Rightarrow> (Inl e, c2)
                | None \<Rightarrow> (Inr (toEnvironmentInfo rs), c2))))"

text \<open>
  \<open>getEnvironmentInfoAsync\<close> wraps every call in \<open>Promise.resolve\<close> and awaits
  \<open>Promise.all\<close> of them.
\<close>

definition getEnvironmentInfoAsync ::
  "'v EnvironmentDetector \<Rightarrow> environment \<Rightarrow> 'v Cache \<Rightarrow> int
     \<Rightarrow> (error + 'v EnvironmentInfo) \<times> 'v Cache" where
  "getEnvironmentInfoAsync f env c now =
     (case callAll (detectorsInOrder f) env c now of
        ((rs, err), c1) \<Rightarrow>
          (case settleAll (zip (detectorsInOrder f) rs) c1 now of
             (outs, c2) \<Rightarrow>
               (case err of
                  Some e \<Rightarrow> (Inl e, c2)
                | None \<Rightarrow>
                    (case promiseAll outs of
                       Inl e \<Rightarrow> (Inl e, c2)
                     | Inr vs \<Rightarrow> (Inr (toEnvironmentInfo vs), c2)))))"

definition clearCache :: "'v Cache \<Rightarrow> 'v Cache" where
  "clearCache c = cache_clear c"

definition enableCache :: "'v Cache \<Rightarrow> 'v Cache" where
  "enableCache c = cache_enable c"

definition disableCache :: "'v Cache \<Rightarrow> 'v Cache" where
  "disableCache c = cache_disable c"

section \<open>plugins/base.ts and plugins/manager.ts\<close>

text \<open>
  An emitted event: its name, the plugin in its payload, and the error in its payload
  when it has one. The context keeps the registered detectors by name; \<open>emitted\<close> lists
  the calls of \<open>emit\<close>, the latest last. What the subscribed handlers do with an event is
  outside the manager: \<open>emit\<close> catches whatever they throw.
\<close>

record PluginEvent =
  event_name :: string
  event_plugin :: string
  event_error :: "error option"

record 'v PluginContextImpl =
  detectors :: "string \<rightharpoonup> 'v Detector"
  emitted :: "PluginEvent list"

definition registerDetector :: "'v PluginContextImpl \<Rightarrow> 'v Detector \<Rightarrow> 'v PluginContextImpl" where
  "registerDetector ctx d = ctx\<lparr>detectors := (detectors ctx)(detector_name d \<mapsto> d)\<rparr>"

definition unregisterDetector :: "'v PluginContextImpl \<Rightarrow> string \<Rightarrow> 'v PluginContextImpl" where
  "unregisterDetector ctx nm = ctx\<lparr>detectors := (detectors ctx)(nm := None)\<rparr>"

definition getDetector :: "'v PluginContextImpl \<Rightarrow> string \<Rightarrow> 'v Detector option" where
  "getDetector ctx nm = detectors ctx nm"

definition emit :: "'v PluginContextImpl \<Rightarrow> PluginEvent \<Rightarrow> 'v PluginContextImpl" where
  "emit ctx ev = ctx\<lparr>emitted := emitted ctx @ [ev]\<rparr>"

text \<open>
  A plugin. The optional \<open>install\<close> hook works on the context and returns or throws;
  the optional \<open>uninstall\<close> hook takes no argument, so all the manager sees of it is
  whether it returns or throws.
\<close>

record 'v Plugin =
  plugin_name :: string
  plugin_version :: string
  plugin_detectors :: "'v Detector list"
  install :: "('v PluginContextImpl \<Rightarrow> error option \<times> 'v PluginContextImpl) option"
  uninstall :: "error option option"

text \<open>\<open>BasePlugin.install\<close>: registers the plugin's detectors, then runs \<open>onInstall\<close>.\<close>

definition BasePlugin_install ::
  "'v Detector list \<Rightarrow> ('v PluginContextImpl \<Rightarrow> error option \<times> 'v PluginContextImpl) option
     \<Rightarrow> 'v PluginContextImpl \<Rightarrow> error option \<times> 'v PluginContextImpl" where
  "BasePlugin_install ds onInstall ctx =
     (let ctx1 = foldl registerDetector ctx ds
      in case onInstall of None \<Rightarrow> (None, ctx1) | Some hook \<Rightarrow> hook ctx1)"

record 'v PluginManagerImpl =
  plugins :: "string \<rightharpoonup> 'v Plugin"
  manager_context :: "'v PluginContextImpl"

definition new_PluginManagerImpl :: "'v PluginManagerImpl" where
  "new_PluginManagerImpl =
     \<lparr>plugins = Map.empty, manager_context = \<lparr>detectors = Map.empty, emitted = []\<rparr>\<rparr>"

definition use :: "'v PluginManagerImpl \<Rightarrow> 'v Plugin \<Rightarrow> (error + unit) \<times> 'v PluginManagerImpl" where
  "use m plugin =
     (if plugins m (plugin_name plugin) \<noteq> None
      then (Inl (Error (''Plugin '' @ [CHR 0x27] @ plugin_name plugin @ [CHR 0x27]
                         @ '' is already installed'')), m)
      else
        (case (case install plugin of
                 None \<Rightarrow> (None, manager_context m)
               | Some hook \<Rightarrow> hook (manager_context m)) of
           (None, ctx1) \<Rightarrow>
             (Inr (),
              m\<lparr>plugins := (plugins m)(plugin_name plugin \<mapsto> plugin),
                manager_context := emit ctx1
                  \<lparr>event_name = ''plugin:installed'', event_plugin = plugin_name plugin,
                   event_error = None\<rparr>\<rparr>)
         | (Some e, ctx1) \<Rightarrow>
             (Inl (Error (''Failed to install plugin '' @ [CHR 0x27] @ plugin_name plugin
                          @ [CHR 0x27] @ '': '' @ error_toString e)),
              m\<lparr>manager_context := emit ctx1
                  \<lparr>event_name = ''plugin:error'', event_plugin = plugin_name plugin,
                   event_error = Some e\<rparr>\<rparr>)))"

text \<open>
  \<open>remove\<close>: inside the \<open>try\<close> the detectors of the plugin are unregistered first, then
  the \<open>uninstall\<close> hook is awaited, then the plugin is deleted and the event emitted.
\<close>

definition remove :: "'v PluginManagerImpl \<Rightarrow> string \<Rightarrow> (error + unit) \<times> 'v PluginManagerImpl" where
  "remove m pluginName =
     (case plugins m pluginName of
        None \<Rightarrow>
          (Inl (Error (''Plugin '' @ [CHR 0x27] @ pluginName @ [CHR 0x27]
                        @ '' is not installed'')), m)
      | Some plugin \<Rightarrow>
          (let ctx1 = foldl unregisterDetector (manager_context m)
                        (map detector_name (plugin_detectors plugin))
           in case (case uninstall plugin of None \<Rightarrow> None | Some outcome \<Rightarrow> outcome) of
                None \<Rightarrow>
                  (Inr (),
                   m\<lparr>plugins := (plugins m)(pluginName := None),
                     manager_context := emit ctx1
                       \<lparr>event_name = ''plugin:removed'', event_plugin = plugin_name plugin,
                        event_error = None\<rparr>\<rparr>)
              | Some e \<Rightarrow>
                  (Inl (Error (''Failed to remove plugin '' @ [CHR 0x27] @ pluginName
                               @ [CHR 0x27] @ '': '' @ error_toString e)),
                   m\<lparr>manager_context := emit ctx1
                       \<lparr>event_name = ''plugin:error'', event_plugin = plugin_name plugin,
                        event_error = Some e\<rparr>\<rparr>)))"

definition plugin_get :: "'v PluginManagerImpl \<Rightarrow> string \<Rightarrow> 'v Plugin option" where
  "plugin_get m pluginName = plugins m pluginName"

section \<open>The objects of the concrete runs\<close>

text \<open>
  A Linux host on which no probed file exists, no environment variable is set and every
  call of the \<open>os\<close> module returns. The concrete runs below start from it and add the
  signals they need.
\<close>

definition bare_linux :: environment where
  "bare_linux =
     \<lparr>processEnv = Map.empty, fs_content = Map.empty, fs_access = (\<lambda>p. False),
      fs_directory = (\<lambda>p. False), os_platform = Inr ''linux'', os_release = Inr ''5.15.0'',
      os_version = Some (Inr ''#1 SMP''), os_arch = Inr ''x64'',
      os_hostname = Inr ''build-host''\<rparr>"

text \<open>
  The results of the detectors as values of one type, and the detector classes over it:
  the three detectors modelled above, and the cloud, Node, mode and privilege detectors
  as given routines. \<open>stubClasses\<close> fixes these four to constant results.
\<close>

datatype 'x detection =
  OSResult OSInfo | ContainerResult ContainerInfo | CIResult CIInfo | OtherResult 'x

definition builtinClasses ::
  "(environment \<Rightarrow> error + 'x) \<Rightarrow> (environment \<Rightarrow> error + 'x)
     \<Rightarrow> (environment \<Rightarrow> error + 'x) \<Rightarrow> (environment \<Rightarrow> error + 'x)
     \<Rightarrow> 'x detection DetectorClasses" where
  "builtinClasses cloudRoutine nodeRoutine modeRoutine privilegeRoutine =
     \<lparr>OSDetector = (\<lambda>env. Inr (OSResult (os_performDetection env))),
      ContainerDetector = (\<lambda>env. map_sum id ContainerResult (container_performDetection env)),
      CIDetector = (\<lambda>env. Inr (CIResult (ci_performDetection env))),
      CloudDetector = (\<lambda>env. map_sum id OtherResult (cloudRoutine env)),
      NodeDetector = (\<lambda>env. map_sum id OtherResult (nodeRoutine env)),
      EnvironmentModeDetector = (\<lambda>env. map_sum id OtherResult (modeRoutine env)),
      PrivilegeDetector = (\<lambda>env. map_sum id OtherResult (privilegeRoutine env))\<rparr>"

definition stubClasses :: "string detection DetectorClasses" where
  "stubClasses =
     builtinClasses (\<lambda>env. Inr ''cloud'') (\<lambda>env. Inr ''node'') (\<lambda>env. Inr ''mode'')
       (\<lambda>env. Inr ''privileges'')"

text \<open>The snapshot of \<open>bare_linux\<close> under \<open>stubClasses\<close>.\<close>

definition bare_linux_info :: "string detection EnvironmentInfo" where
  "bare_linux_info =
     \<lparr>os = OSResult \<lparr>platform = ''linux'', type = os_linux, version = ''#1 SMP'',
                      release = ''5.15.0'', arch = ''x64'', isWindows = False,
                      isMacOS = False, isLinux = True\<rparr>,
      container = ContainerResult
                    \<lparr>isContainer = False, isDocker = False, isWSL = False,
                     isKubernetes = False, containerType = None, wslVersion = None,
                     wslDistro = None\<rparr>,
      ci = CIResult \<lparr>isCI = False, name = None, isPR = None, provider = None\<rparr>,
      cloud = OtherResult ''cloud'', node = OtherResult ''node'',
      privileges = OtherResult ''privileges'', mode = OtherResult ''mode''\<rparr>"

text \<open>
  A plugin with one detector whose \<open>uninstall\<close> hook throws, as the \<open>MockPlugin\<close> of the
  manager's tests with \<open>uninstallError\<close> set; its \<open>install\<close> is the one of \<open>BasePlugin\<close>.
\<close>

definition custom_detector :: "nat Detector" where
  "custom_detector = BaseDetector ''custom'' (\<lambda>env. Inr 0) no_options"

definition failing_plugin :: "nat Plugin" where
  "failing_plugin =
     \<lparr>plugin_name = ''mock-plugin'', plugin_version = ''1.0.0'',
      plugin_detectors = [custom_detector],
      install = Some (BasePlugin_install [custom_detector] None),
      uninstall = Some (Some (Error ''Uninstall failed''))\<rparr>"

lemmas env_simps =
  getEnv_def hasEnv_def getEnvBoolean_def fileExists_def readFile_def isDirectory_def
  truthy_def the_string_def bare_linux_def

lemmas ci_consts =
  CI_ENV_VARS_CI_def CI_ENV_VARS_CONTINUOUS_INTEGRATION_def CI_ENV_VARS_BUILD_NUMBER_def
  CI_ENV_VARS_CI_NAME_def CI_PROVIDER_ENV_VARS_def

lemmas container_consts =
  DOCKER_ENV_def DOCKER_INIT_def WSL_INTEROP_def KUBERNETES_SERVICE_def WSL_ENV_VAR_def
  WSL_PROC_VERSION_def WSL_PROC_SYS_def

lemmas container_run_simps =
  container_performDetection_def detectDocker_def detectWSL_def detectKubernetes_def
  getWSLVersion_def getWSLDistro_def contentIncludes_def env_simps container_consts
  k8sHostname_def isLowerAlnum_def toLowerCase_def toLowerChar_def matchTriadAt_def
  isDigit_def parseInt_def digitValue_def

section \<open>Properties of the cache\<close>

lemma cache_get_after_set:
  assumes "enabled c" and "t1 - t0 \<le> ttl"
  shows "cache_get (cache_set c k v (Some ttl) t0) k t1
           = (Some v, cache_set c k v (Some ttl) t0)"
  using assms by (simp add: cache_get_def cache_set_def)

lemma cache_get_expired:
  assumes "enabled c" and "ttl < t1 - t0"
  shows "cache_get (cache_set c k v (Some ttl) t0) k t1
           = (None, (cache_set c k v (Some ttl) t0)\<lparr>store := (store c)(k := None)\<rparr>)"
  using assms by (simp add: cache_get_def cache_set_def)

lemma cache_has_expired:
  assumes "enabled c" and "ttl < t1 - t0"
  shows "cache_has (cache_set c k v (Some ttl) t0) k t1
           = (False, (cache_set c k v (Some ttl) t0)\<lparr>store := (store c)(k := None)\<rparr>)"
  using assms by (simp add: cache_has_def cache_set_def)

lemma cache_size_drop:
  assumes "finite (dom (store c))" and "store c k \<noteq> None"
  shows "cache_size (c\<lparr>store := (store c)(k := None)\<rparr>) + 1 = cache_size c"
proof -
  from assms(2) have "k \<in> dom (store c)" by (simp add: domIff)
  with assms(1) have "Suc (card (dom (store c) - {k})) = card (dom (store c))"
    by (rule card_Suc_Diff1)
  then show ?thesis by (simp add: cache_size_def del: card_Diff_insert)
qed

text \<open>
  C4, as the code has it. With the cache enabled, an entry set with a time-to-live
  \<open>ttl\<close> is returned by every \<open>get\<close> made while no more than \<open>ttl\<close> milliseconds have
  passed, so by an immediate one when \<open>ttl\<close> is not negative. Once more than \<open>ttl\<close>
  milliseconds have passed, the next \<open>get\<close> or \<open>has\<close> reports the key absent and deletes
  the entry, and \<open>size\<close> is one less than before that read.
\<close>

theorem cache_roundtrip_and_expiry:
  fixes c :: "'v Cache" and k :: string and v :: 'v and ttl t0 t1 :: int
  assumes "enabled c" and "finite (dom (store c))"
  defines "c1 \<equiv> cache_set c k v (Some ttl) t0"
  shows "(0 \<le> ttl \<longrightarrow> fst (cache_get c1 k t0) = Some v)
     \<and> (t1 - t0 \<le> ttl \<longrightarrow> cache_get c1 k t1 = (Some v, c1))
     \<and> (ttl < t1 - t0 \<longrightarrow>
          fst (cache_get c1 k t1) = None
          \<and> store (snd (cache_get c1 k t1)) k = None
          \<and> cache_size (snd (cache_get c1 k t1)) + 1 = cache_size c1
          \<and> fst (cache_has c1 k t1) = False
          \<and> store (snd (cache_has c1 k t1)) k = None
          \<and> cache_size (snd (cache_has c1 k t1)) + 1 = cache_size c1)"
proof -
  have fin: "finite (dom (store c1))"
    using assms(1,2) by (simp add: c1_def cache_set_def)
  have there: "store c1 k \<noteq> None"
    using assms(1) by (simp add: c1_def cache_set_def)
  have same: "(store c1)(k := None) = (store c)(k := None)"
    using assms(1) by (simp add: c1_def cache_set_def)
  have drop: "cache_size (c1\<lparr>store := (store c)(k := None)\<rparr>) + 1 = cache_size c1"
    using cache_size_drop [OF fin there] by (simp add: same)
  have now: "0 \<le> ttl \<longrightarrow> fst (cache_get c1 k t0) = Some v"
    using assms(1) by (simp add: c1_def cache_get_after_set)
  have live: "t1 - t0 \<le> ttl \<longrightarrow> cache_get c1 k t1 = (Some v, c1)"
    using assms(1) by (simp add: c1_def cache_get_after_set)
  have dead: "ttl < t1 - t0 \<longrightarrow>
          fst (cache_get c1 k t1) = None
          \<and> store (snd (cache_get c1 k t1)) k = None
          \<and> cache_size (snd (cache_get c1 k t1)) + 1 = cache_size c1
          \<and> fst (cache_has c1 k t1) = False
          \<and> store (snd (cache_has c1 k t1)) k = None
          \<and> cache_size (snd (cache_has c1 k t1)) + 1 = cache_size c1"
  proof
    assume late: "ttl < t1 - t0"
    have g: "cache_get c1 k t1 = (None, c1\<lparr>store := (store c)(k := None)\<rparr>)"
      unfolding c1_def using assms(1) late by (rule cache_get_expired)
    have h: "cache_has c1 k t1 = (False, c1\<lparr>store := (store c)(k := None)\<rparr>)"
      unfolding c1_def using assms(1) late by (rule cache_has_expired)
    show "fst (cache_get c1 k t1) = None
          \<and> store (snd (cache_get c1 k t1)) k = None
          \<and> cache_size (snd (cache_get c1 k t1)) + 1 = cache_size c1
          \<and> fst (cache_has c1 k t1) = False
          \<and> store (snd (cache_has c1 k t1)) k = None
          \<and> cache_size (snd (cache_has c1 k t1)) + 1 = cache_size c1"
      using drop by (simp add: g h)
  qed
  from now live dead show ?thesis by blast
qed

theorem cache_roundtrip_and_expiry_witness:
  "enabled (new_Cache :: nat Cache) \<and> finite (dom (store (new_Cache :: nat Cache)))
   \<and> fst (cache_get (cache_set new_Cache ''detector:os'' (7::nat) (Some 1000) 0)
             ''detector:os'' 0) = Some 7
   \<and> fst (cache_get (cache_set new_Cache ''detector:os'' (7::nat) (Some 1000) 0)
             ''detector:os'' 1001) = None
   \<and> cache_size (cache_set new_Cache ''detector:os'' (7::nat) (Some 1000) 0) = 1
   \<and> cache_size (snd (cache_get (cache_set new_Cache ''detector:os'' (7::nat) (Some 1000) 0)
                     ''detector:os'' 1001)) + 1 = 1"
proof -
  have e: "enabled (new_Cache :: nat Cache)" by (simp add: new_Cache_def)
  have f: "finite (dom (store (new_Cache :: nat Cache)))" by (simp add: new_Cache_def)
  have s: "cache_size (cache_set new_Cache ''detector:os'' (7::nat) (Some 1000) 0) = 1"
    by (simp add: cache_size_def cache_set_def new_Cache_def)
  from cache_roundtrip_and_expiry [OF e f, of 1000 "''detector:os''" 7 0 1001] e f s
  show ?thesis by simp
qed

text \<open>
  C4, as it is stated, for every \<open>ttl\<close>: with a negative time-to-live the entry has
  expired at the instant it was set, and the immediate \<open>get\<close> reports it absent.
\<close>

theorem cache_negative_ttl_counterexample:
  "enabled (new_Cache :: nat Cache)
   \<and> fst (cache_get (cache_set new_Cache ''k'' (7::nat) (Some (- 1)) 0) ''k'' 0) \<noteq> Some 7"
  by (simp add: cache_get_def cache_set_def new_Cache_def)

section \<open>Properties of the OS detector\<close>

text \<open>
  C5. In every record that the OS detection returns at most one of \<open>isWindows\<close>,
  \<open>isMacOS\<close>, \<open>isLinux\<close> is true. When reading the OS information fails, that is when
  one of \<open>os.platform()\<close>, \<open>os.release()\<close>, \<open>os.version()\<close>, \<open>os.arch()\<close> throws, the
  record is the fallback: the three flags are false, \<open>type\<close> is \<open>unknown\<close>, and
  \<open>platform\<close> is the string \<open>linux\<close> whatever the machine is.
\<close>

theorem os_flags_exclusive_and_fallback:
  "\<not> (isWindows (os_performDetection env) \<and> isMacOS (os_performDetection env))
   \<and> \<not> (isWindows (os_performDetection env) \<and> isLinux (os_performDetection env))
   \<and> \<not> (isMacOS (os_performDetection env) \<and> isLinux (os_performDetection env))
   \<and> ((isl (os_platform env) \<or> isl (os_release env) \<or> (\<exists>e. os_version env = Some (Inl e))
         \<or> isl (os_arch env))
        \<longrightarrow> os_performDetection env = os_fallback
            \<and> \<not> isWindows (os_performDetection env)
            \<and> \<not> isMacOS (os_performDetection env)
            \<and> \<not> isLinux (os_performDetection env)
            \<and> type (os_performDetection env) = os_unknown
            \<and> platform (os_performDetection env) = ''linux'')"
  by (auto simp: os_performDetection_def os_fallback_def os_classify_def isl_def
           split: sum.splits option.splits)

theorem os_flags_exclusive_and_fallback_witness:
  "isl (os_platform (bare_linux\<lparr>os_platform := Inl (Error ''mocked'')\<rparr>))
   \<and> os_performDetection (bare_linux\<lparr>os_platform := Inl (Error ''mocked'')\<rparr>) = os_fallback
   \<and> platform (os_performDetection (bare_linux\<lparr>os_platform := Inl (Error ''mocked'')\<rparr>))
       = ''linux''
   \<and> type (os_performDetection (bare_linux\<lparr>os_platform := Inl (Error ''mocked'')\<rparr>))
       = os_unknown"
proof -
  let ?env = "bare_linux\<lparr>os_platform := Inl (Error ''mocked'')\<rparr>"
  have h: "isl (os_platform ?env)" by simp
  from os_flags_exclusive_and_fallback [of ?env] h show ?thesis by blast
qed

section \<open>Properties of the string functions\<close>











section \<open>Properties of the container detector\<close>

text \<open>
  C1. Whenever the container detection returns a record, \<open>isContainer\<close> is the
  disjunction of \<open>isDocker\<close>, \<open>isWSL\<close> and \<open>isKubernetes\<close>; \<open>containerType\<close> is defined
  exactly when \<open>isContainer\<close> is true; it is \<open>docker\<close> whenever \<open>isDocker\<close> is true,
  whatever the other two flags are, then \<open>wsl\<close>, then \<open>kubernetes\<close>.
\<close>

theorem container_invariants:
  assumes "container_performDetection env = Inr info"
  shows "isContainer info = (isDocker info \<or> isWSL info \<or> isKubernetes info)
     \<and> ((containerType info \<noteq> None) = isContainer info)
     \<and> (isDocker info \<longrightarrow> containerType info = Some ct_docker)
     \<and> (\<not> isDocker info \<and> isWSL info \<longrightarrow> containerType info = Some ct_wsl)
     \<and> (\<not> isDocker info \<and> \<not> isWSL info \<and> isKubernetes info
          \<longrightarrow> containerType info = Some ct_kubernetes)"
  using assms
  by (auto simp: container_performDetection_def Let_def split: sum.splits if_splits)

text \<open>
  The detection returns a record unless \<open>os.platform()\<close> or \<open>os.hostname()\<close> throws.
\<close>

lemma container_performDetection_returns:
  assumes "os_platform env = Inr p" and "os_hostname env = Inr h"
  shows "\<exists>info. container_performDetection env = Inr info"
  using assms
  by (simp add: container_performDetection_def detectWSL_def detectKubernetes_def Let_def)

text \<open>
  The precedence test: the Docker marker file and the WSL environment variable at once.
\<close>

lemma docker_in_wsl_run:
  "container_performDetection
     (bare_linux\<lparr>processEnv := [''WSL_DISTRO_NAME'' \<mapsto> ''Ubuntu''],
                 fs_access := (\<lambda>p. p = ''/.dockerenv'')\<rparr>)
   = Inr \<lparr>isContainer = True, isDocker = True, isWSL = True, isKubernetes = False,
          containerType = Some ct_docker, wslVersion = None, wslDistro = Some ''Ubuntu''\<rparr>"
  by (simp add: container_performDetection_def detectDocker_def detectWSL_def
        detectKubernetes_def getWSLVersion_def env_simps container_consts k8sHostname_def
        isLowerAlnum_def)

theorem container_invariants_witness:
  "container_performDetection
     (bare_linux\<lparr>processEnv := [''WSL_DISTRO_NAME'' \<mapsto> ''Ubuntu''],
                 fs_access := (\<lambda>p. p = ''/.dockerenv'')\<rparr>)
   = Inr \<lparr>isContainer = True, isDocker = True, isWSL = True, isKubernetes = False,
          containerType = Some ct_docker, wslVersion = None, wslDistro = Some ''Ubuntu''\<rparr>
   \<and> isContainer \<lparr>isContainer = True, isDocker = True, isWSL = True, isKubernetes = False,
          containerType = Some ct_docker, wslVersion = None, wslDistro = Some ''Ubuntu''\<rparr>
   \<and> containerType \<lparr>isContainer = True, isDocker = True, isWSL = True, isKubernetes = False,
          containerType = Some ct_docker, wslVersion = None, wslDistro = Some ''Ubuntu''\<rparr>
       = Some ct_docker"
  using container_invariants [OF docker_in_wsl_run] docker_in_wsl_run by simp






lemma wsl1_kernel_run:
  "container_performDetection
     (bare_linux\<lparr>fs_content := [''/proc/version'' \<mapsto>
        ''Linux version 4.4.0-19041-Microsoft'']\<rparr>)
   = Inr \<lparr>isContainer = True, isDocker = False, isWSL = True, isKubernetes = False,
          containerType = Some ct_wsl, wslVersion = Some 1, wslDistro = None\<rparr>"
  by (simp add: container_run_simps)




section \<open>Properties of the CI detector\<close>

text \<open>
  C6. Whenever the CI detection returns a record with \<open>isCI\<close> false, the fields
  \<open>name\<close>, \<open>provider\<close> and \<open>isPR\<close> are absent from it.
\<close>

theorem not_ci_fields_absent:
  assumes "\<not> isCI (ci_performDetection env)"
  shows "name (ci_performDetection env) = None
     \<and> provider (ci_performDetection env) = None
     \<and> isPR (ci_performDetection env) = None"
  using assms by (simp add: ci_performDetection_def Let_def split: if_splits)

theorem not_ci_fields_absent_witness:
  "\<not> isCI (ci_performDetection bare_linux)
   \<and> name (ci_performDetection bare_linux) = None
   \<and> provider (ci_performDetection bare_linux) = None
   \<and> isPR (ci_performDetection bare_linux) = None"
proof -
  have h: "\<not> isCI (ci_performDetection bare_linux)"
    by (simp add: ci_performDetection_def detectCI_def env_simps ci_consts)
  from not_ci_fields_absent [OF h] h show ?thesis by simp
qed

text \<open>
  C2, at \<open>TRAVIS=true\<close> with \<open>TRAVIS_PULL_REQUEST\<close> unset. Under Travis the code
  reports a pull request unless the variable is the string \<open>false\<close>; the unset variable is
  not that string, so \<open>isPR\<close> is true.
\<close>

theorem travis_unset_pull_request_run:
  "getEnv (bare_linux\<lparr>processEnv := [''TRAVIS'' \<mapsto> ''true'']\<rparr>) ''TRAVIS_PULL_REQUEST'' = None
   \<and> ci_performDetection (bare_linux\<lparr>processEnv := [''TRAVIS'' \<mapsto> ''true'']\<rparr>)
       = \<lparr>isCI = True, name = Some ''Travis CI'', isPR = Some True, provider = Some travis_ci\<rparr>"
  by (simp add: ci_performDetection_def detectCI_def detectCIProvider_def env_simps ci_consts
        toLowerCase_def toLowerChar_def)

text \<open>What the Travis branch computes in general, and the run with the string \<open>false\<close>.\<close>

lemma travis_pull_request:
  assumes "provider (ci_performDetection env) = Some travis_ci"
  shows "isPR (ci_performDetection env)
           = Some (getEnv env ''TRAVIS_PULL_REQUEST'' \<noteq> Some ''false'')"
  using assms by (simp add: ci_performDetection_def Let_def split: if_splits)

lemma travis_false_pull_request_run:
  "ci_performDetection
     (bare_linux\<lparr>processEnv := [''TRAVIS'' \<mapsto> ''true'', ''TRAVIS_PULL_REQUEST'' \<mapsto> ''false'']\<rparr>)
   = \<lparr>isCI = True, name = Some ''Travis CI'', isPR = Some False, provider = Some travis_ci\<rparr>"
  by (simp add: ci_performDetection_def detectCI_def detectCIProvider_def env_simps ci_consts
        toLowerCase_def toLowerChar_def)

lemma provider_vars_partition:
  "set booleanProviderVars \<union> set presenceProviderVars = set CI_PROVIDER_ENV_VARS"
  by (auto simp: booleanProviderVars_def presenceProviderVars_def CI_PROVIDER_ENV_VARS_def)

lemma detectCI_provider_var:
  assumes "X \<in> set CI_PROVIDER_ENV_VARS" and "hasEnv env X"
  shows "detectCI env"
  using assms by (auto simp: detectCI_def list_ex_iff)

lemma detectCIProvider_unknown:
  assumes "list_all (\<lambda>Y. \<not> getEnvBoolean env Y False) booleanProviderVars"
      and "list_all (\<lambda>Z. \<not> hasEnv env Z) presenceProviderVars"
  shows "detectCIProvider env = ci_unknown"
  using assms
  by (simp add: detectCIProvider_def booleanProviderVars_def presenceProviderVars_def)

text \<open>
  C9, as the code has it. Let one of the six provider variables that the provider phase
  tests with \<open>getEnvBoolean\<close> be present, let none of the six hold a truthy value, and let
  none of the four provider variables that the provider phase tests with \<open>hasEnv\<close> be
  present. Then \<open>isCI\<close> is true, the provider is \<open>unknown\<close>, and the name is the value of
  \<open>CI_NAME\<close> when that is set and not empty, and \<open>Unknown CI\<close> otherwise.
\<close>

theorem falsy_provider_flag:
  assumes "X \<in> set booleanProviderVars"
      and "hasEnv env X"
      and "list_all (\<lambda>Y. \<not> getEnvBoolean env Y False) booleanProviderVars"
      and "list_all (\<lambda>Z. \<not> hasEnv env Z) presenceProviderVars"
  shows "isCI (ci_performDetection env)
     \<and> provider (ci_performDetection env) = Some ci_unknown
     \<and> name (ci_performDetection env)
         = Some (if truthy (getEnv env ''CI_NAME'') then the_string (getEnv env ''CI_NAME'')
                 else ''Unknown CI'')"
proof -
  from assms(1) provider_vars_partition have "X \<in> set CI_PROVIDER_ENV_VARS" by blast
  then have ci: "detectCI env" using assms(2) by (rule detectCI_provider_var)
  have p: "detectCIProvider env = ci_unknown" using assms(3,4) by (rule detectCIProvider_unknown)
  show ?thesis by (simp add: ci_performDetection_def ci p CI_ENV_VARS_CI_NAME_def)
qed

theorem falsy_provider_flag_witness:
  "''GITHUB_ACTIONS'' \<in> set booleanProviderVars
   \<and> hasEnv (bare_linux\<lparr>processEnv := [''GITHUB_ACTIONS'' \<mapsto> ''false'']\<rparr>) ''GITHUB_ACTIONS''
   \<and> \<not> getEnvBoolean (bare_linux\<lparr>processEnv := [''GITHUB_ACTIONS'' \<mapsto> ''false'']\<rparr>)
         ''GITHUB_ACTIONS'' False
   \<and> isCI (ci_performDetection (bare_linux\<lparr>processEnv := [''GITHUB_ACTIONS'' \<mapsto> ''false'']\<rparr>))
   \<and> provider (ci_performDetection (bare_linux\<lparr>processEnv := [''GITHUB_ACTIONS'' \<mapsto> ''false'']\<rparr>))
       = Some ci_unknown
   \<and> name (ci_performDetection (bare_linux\<lparr>processEnv := [''GITHUB_ACTIONS'' \<mapsto> ''false'']\<rparr>))
       = Some ''Unknown CI''"
proof -
  let ?env = "bare_linux\<lparr>processEnv := [''GITHUB_ACTIONS'' \<mapsto> ''false'']\<rparr>"
  have a: "''GITHUB_ACTIONS'' \<in> set booleanProviderVars"
    by (simp add: booleanProviderVars_def)
  have b: "hasEnv ?env ''GITHUB_ACTIONS''" by (simp add: env_simps)
  have c: "list_all (\<lambda>Y. \<not> getEnvBoolean ?env Y False) booleanProviderVars"
    by (simp add: booleanProviderVars_def env_simps toLowerCase_def toLowerChar_def)
  have d: "list_all (\<lambda>Z. \<not> hasEnv ?env Z) presenceProviderVars"
    by (simp add: presenceProviderVars_def env_simps)
  have e: "\<not> getEnvBoolean ?env ''GITHUB_ACTIONS'' False"
    by (simp add: env_simps toLowerCase_def toLowerChar_def)
  have f: "\<not> truthy (getEnv ?env ''CI_NAME'')" by (simp add: env_simps)
  from falsy_provider_flag [OF a b c d] a b e f show ?thesis by simp
qed

text \<open>
  C9, as it is stated, for every provider variable: \<open>JENKINS_URL\<close> is one, and the
  provider phase tests it with \<open>hasEnv\<close>. Present with the value \<open>false\<close> and nothing else
  set, it makes the provider \<open>jenkins\<close> and the name \<open>Jenkins\<close>.
\<close>

theorem jenkins_url_false_counterexample:
  "''JENKINS_URL'' \<in> set CI_PROVIDER_ENV_VARS
   \<and> processEnv (bare_linux\<lparr>processEnv := [''JENKINS_URL'' \<mapsto> ''false'']\<rparr>)
       = [''JENKINS_URL'' \<mapsto> ''false'']
   \<and> \<not> getEnvBoolean (bare_linux\<lparr>processEnv := [''JENKINS_URL'' \<mapsto> ''false'']\<rparr>)
         ''JENKINS_URL'' False
   \<and> ci_performDetection (bare_linux\<lparr>processEnv := [''JENKINS_URL'' \<mapsto> ''false'']\<rparr>)
       = \<lparr>isCI = True, name = Some ''Jenkins'', isPR = Some False, provider = Some jenkins\<rparr>"
  by (simp add: ci_performDetection_def detectCI_def detectCIProvider_def env_simps ci_consts
        toLowerCase_def toLowerChar_def)

section \<open>Properties of the plugin manager\<close>

text \<open>
  What \<open>remove\<close> does when the \<open>uninstall\<close> hook throws: it throws the wrapped error
  after emitting \<open>plugin:error\<close>, the plugin stays in the manager's table, and every
  detector of the plugin has been unregistered from the context.
\<close>

lemma unregister_all_detectors:
  "detectors (foldl unregisterDetector ctx ns) = (\<lambda>k. if k \<in> set ns then None else detectors ctx k)"
  by (induction ns arbitrary: ctx) (auto simp: unregisterDetector_def)

lemma unregister_all_emitted:
  "emitted (foldl unregisterDetector ctx ns) = emitted ctx"
  by (induction ns arbitrary: ctx) (auto simp: unregisterDetector_def)

lemma remove_uninstall_throws:
  assumes "plugins m pluginName = Some plugin" and "uninstall plugin = Some (Some e)"
  shows "fst (remove m pluginName)
           = Inl (Error (''Failed to remove plugin '' @ [CHR 0x27] @ pluginName @ [CHR 0x27]
                         @ '': '' @ error_toString e))"
    and "plugins (snd (remove m pluginName)) = plugins m"
    and "emitted (manager_context (snd (remove m pluginName)))
           = emitted (manager_context m)
             @ [\<lparr>event_name = ''plugin:error'', event_plugin = plugin_name plugin,
                 event_error = Some e\<rparr>]"
    and "detectors (manager_context (snd (remove m pluginName)))
           = (\<lambda>k. if k \<in> detector_name ` set (plugin_detectors plugin) then None
                   else detectors (manager_context m) k)"
  using assms
  by (simp_all add: remove_def Let_def emit_def unregister_all_detectors unregister_all_emitted)

text \<open>
  C7, at a plugin with one registered detector whose \<open>uninstall\<close> hook throws. The
  manager throws the wrapped error and keeps the plugin in its table, but the plugin's
  detector is no longer registered: the removal is partial.
\<close>

theorem failed_uninstall_run:
  "fst (use new_PluginManagerImpl failing_plugin) = Inr ()
   \<and> plugin_get (snd (use new_PluginManagerImpl failing_plugin)) ''mock-plugin''
       = Some failing_plugin
   \<and> getDetector (manager_context (snd (use new_PluginManagerImpl failing_plugin))) ''custom''
       = Some custom_detector
   \<and> fst (remove (snd (use new_PluginManagerImpl failing_plugin)) ''mock-plugin'')
       = Inl (Error (''Failed to remove plugin '' @ [CHR 0x27] @ ''mock-plugin'' @ [CHR 0x27]
                     @ '': Error: Uninstall failed''))
   \<and> plugin_get (snd (remove (snd (use new_PluginManagerImpl failing_plugin)) ''mock-plugin''))
         ''mock-plugin''
       = Some failing_plugin
   \<and> getDetector (manager_context
         (snd (remove (snd (use new_PluginManagerImpl failing_plugin)) ''mock-plugin'')))
         ''custom''
       = None"
  by (simp add: use_def remove_def new_PluginManagerImpl_def failing_plugin_def
        BasePlugin_install_def registerDetector_def unregisterDetector_def emit_def
        plugin_get_def getDetector_def custom_detector_def BaseDetector_def Let_def)

section \<open>Properties of the detector contract and the facade\<close>

subsection \<open>A disabled cache\<close>

lemma cache_disable_state:
  "enabled (cache_disable c) = False" "store (cache_disable c) = Map.empty"
  by (simp_all add: cache_disable_def cache_clear_def)

lemma disabled_get: "\<not> enabled c \<Longrightarrow> cache_get c k now = (None, c)"
  by (simp add: cache_get_def)

lemma disabled_has: "\<not> enabled c \<Longrightarrow> cache_has c k now = (False, c)"
  by (simp add: cache_has_def)

lemma disabled_set: "\<not> enabled c \<Longrightarrow> cache_set c k v t now = c"
  by (simp add: cache_set_def)

lemma disabled_lookupCached: "\<not> enabled c \<Longrightarrow> lookupCached d c now = (None, c)"
  by (simp add: lookupCached_def disabled_get)

lemma disabled_storeResult: "\<not> enabled c \<Longrightarrow> storeResult d r c now = c"
  by (simp add: storeResult_def disabled_set)

lemma disabled_detectSync:
  "\<not> enabled c \<Longrightarrow> detectSync d env c now = (performDetection d env, c)"
  by (simp add: detectSync_def disabled_lookupCached disabled_storeResult split: sum.splits)

lemma disabled_detectAsync_call:
  "\<not> enabled c \<Longrightarrow> detectAsync_call d env c now = (Awaiting (performAsyncDetection d env), c)"
  by (simp add: detectAsync_call_def disabled_lookupCached)

lemma disabled_detectAsync_resume:
  "\<not> enabled c \<Longrightarrow> snd (detectAsync_resume d s c now) = c"
  by (simp add: detectAsync_resume_def disabled_storeResult split: suspended.splits sum.splits)

lemma disabled_detectAsync:
  "\<not> enabled c \<Longrightarrow> detectAsync d env c now = (performAsyncDetection d env, c)"
  by (simp add: detectAsync_def disabled_detectAsync_call detectAsync_resume_def
        disabled_storeResult split: sum.splits)

lemma disabled_detect: "\<not> enabled c \<Longrightarrow> snd (detect d env c now) = c"
  by (simp add: detect_def disabled_detectSync disabled_detectAsync_call split: sum.splits)

lemma disabled_callAll: "\<not> enabled c \<Longrightarrow> snd (callAll ds env c now) = c"
proof (induction ds)
  case Nil
  then show ?case by simp
next
  case (Cons d ds)
  obtain r c1 where a: "detect d env c now = (r, c1)" by (metis surj_pair)
  with disabled_detect [OF Cons.prems, of d env now] have c1: "c1 = c" by simp
  from Cons show ?case by (cases r) (auto simp: a c1 split: prod.splits)
qed

lemma disabled_settleAll: "\<not> enabled c \<Longrightarrow> snd (settleAll zs c now) = c"
proof (induction zs c now rule: settleAll.induct)
  case (1 c now)
  then show ?case by simp
next
  case (2 d v rest c now)
  then show ?case by (auto split: prod.splits)
next
  case (3 d s rest c now)
  from 3(2) have "snd (detectAsync_resume d s c now) = c" by (rule disabled_detectAsync_resume)
  with 3 show ?case by (auto split: prod.splits)
qed

lemma disabled_getEnvironmentInfo:
  assumes "\<not> enabled c"
  shows "snd (getEnvironmentInfo f env c now) = c"
proof -
  obtain rs err c1 where a: "callAll (detectorsInOrder f) env c now = ((rs, err), c1)"
    by (metis surj_pair)
  with disabled_callAll [OF assms, of "detectorsInOrder f" env now] have c1: "c1 = c" by simp
  obtain outs c2 where b: "settleAll (zip (detectorsInOrder f) rs) c now = (outs, c2)"
    by (metis surj_pair)
  with disabled_settleAll [OF assms, of "zip (detectorsInOrder f) rs" now] have c2: "c2 = c" by simp
  show ?thesis
    by (simp add: getEnvironmentInfo_def a b c1 c2 split: option.splits)
qed

lemma disabled_getEnvironmentInfoAsync:
  assumes "\<not> enabled c"
  shows "snd (getEnvironmentInfoAsync f env c now) = c"
proof -
  obtain rs err c1 where a: "callAll (detectorsInOrder f) env c now = ((rs, err), c1)"
    by (metis surj_pair)
  with disabled_callAll [OF assms, of "detectorsInOrder f" env now] have c1: "c1 = c" by simp
  obtain outs c2 where b: "settleAll (zip (detectorsInOrder f) rs) c now = (outs, c2)"
    by (metis surj_pair)
  with disabled_settleAll [OF assms, of "zip (detectorsInOrder f) rs" now] have c2: "c2 = c" by simp
  show ?thesis
    by (simp add: getEnvironmentInfoAsync_def a b c1 c2 split: option.splits sum.splits)
qed

lemma constructor_cache:
  "snd (new_EnvironmentDetector K arg c)
     = (case arg of None \<Rightarrow> c | Some opts \<Rightarrow> if cache opts = Given False then cache_disable c else c)"
  by (simp add: new_EnvironmentDetector_def split: option.splits)

lemma enabled_detectSync_caches:
  assumes "enabled c" and "isOn (cache (options d))" and "detectSync d env c now = (Inr v, c')"
  shows "store c' (getCacheKey d) \<noteq> None"
  using assms
  by (auto simp: detectSync_def lookupCached_def storeResult_def cache_get_def cache_set_def
           split: option.splits sum.splits if_splits)

text \<open>
  C10. Constructing an \<open>EnvironmentDetector\<close> with options whose \<open>cache\<close> field is
  \<open>false\<close> disables the shared cache: it is empty and reports disabled. From then on no
  detector, whatever its own options, reads or writes it, nor does any facade instance,
  and \<open>set\<close>, \<open>get\<close> and \<open>has\<close> do nothing, until \<open>enableCache\<close> switches it on
  again, after which a caching detector stores its result as before.
\<close>

theorem constructor_cache_false_disables_shared_cache:
  fixes K :: "'v DetectorClasses" and c :: "'v Cache"
  assumes "cache opts = Given False"
  defines "c' \<equiv> snd (new_EnvironmentDetector K (Some opts) c)"
  shows "\<not> cache_isEnabled c' \<and> store c' = Map.empty \<and> cache_size c' = 0
     \<and> (\<forall>d env now. detectSync d env c' now = (performDetection d env, c'))
     \<and> (\<forall>d env now. detectAsync d env c' now = (performAsyncDetection d env, c'))
     \<and> (\<forall>f env now. snd (getEnvironmentInfo f env c' now) = c'
                      \<and> snd (getEnvironmentInfoAsync f env c' now) = c')
     \<and> (\<forall>k v t now. cache_set c' k v t now = c' \<and> fst (cache_get c' k now) = None
                      \<and> fst (cache_has c' k now) = False)
     \<and> cache_isEnabled (enableCache c')
     \<and> (\<forall>d env now v. isOn (cache (options d)) \<and> performDetection d env = Inr v
           \<longrightarrow> map_option entry_value
                 (store (snd (detectSync d env (enableCache c') now)) (getCacheKey d)) = Some v)"
proof -
  have c': "c' = cache_disable c"
    using assms(1) by (simp add: c'_def constructor_cache)
  have off: "\<not> enabled c'" and empty: "store c' = Map.empty"
    by (simp_all add: c' cache_disable_state)
  have size: "cache_size c' = 0" by (simp add: cache_size_def empty)
  have on: "cache_isEnabled (enableCache c')"
    by (simp add: cache_isEnabled_def enableCache_def cache_enable_def)
  have again: "\<forall>d env now v. isOn (cache (options d)) \<and> performDetection d env = Inr v
           \<longrightarrow> map_option entry_value
                 (store (snd (detectSync d env (enableCache c') now)) (getCacheKey d)) = Some v"
    by (simp add: detectSync_def lookupCached_def storeResult_def cache_get_def cache_set_def
          enableCache_def cache_enable_def empty)
  from off empty size on again show ?thesis
    by (simp add: cache_isEnabled_def disabled_detectSync disabled_detectAsync
          disabled_getEnvironmentInfo disabled_getEnvironmentInfoAsync disabled_set
          disabled_get disabled_has)
qed

theorem constructor_cache_false_disables_shared_cache_witness:
  "cache (no_options\<lparr>cache := Given False\<rparr>) = Given False
   \<and> cache_size (cache_set new_Cache ''detector:os'' (OtherResult ''cached'' :: string detection) None 0) = 1
   \<and> cache_size (snd (new_EnvironmentDetector stubClasses
        (Some (no_options\<lparr>cache := Given False\<rparr>))
        (cache_set new_Cache ''detector:os'' (OtherResult ''cached'') None 0))) = 0
   \<and> isOn (cache (options (BaseDetector ''ci'' (CIDetector stubClasses) no_options)))
   \<and> detectSync (BaseDetector ''ci'' (CIDetector stubClasses) no_options) bare_linux
        (snd (new_EnvironmentDetector stubClasses
          (Some (no_options\<lparr>cache := Given False\<rparr>))
          (cache_set new_Cache ''detector:os'' (OtherResult ''cached'') None 0))) 5
       = (Inr (CIResult \<lparr>isCI = False, name = None, isPR = None, provider = None\<rparr>),
          snd (new_EnvironmentDetector stubClasses
            (Some (no_options\<lparr>cache := Given False\<rparr>))
            (cache_set new_Cache ''detector:os'' (OtherResult ''cached'') None 0)))"
proof -
  let ?opts = "no_options\<lparr>cache := Given False\<rparr>"
  let ?c = "cache_set new_Cache ''detector:os'' (OtherResult ''cached'' :: string detection) None 0"
  let ?d = "BaseDetector ''ci'' (CIDetector stubClasses) no_options"
  have h: "cache ?opts = Given False" by simp
  have s: "cache_size ?c = 1" by (simp add: cache_size_def cache_set_def new_Cache_def)
  have o: "isOn (cache (options ?d))"
    by (simp add: BaseDetector_def withDefaults_def no_options_def isOn_def)
  have r: "performDetection ?d bare_linux
             = Inr (CIResult \<lparr>isCI = False, name = None, isPR = None, provider = None\<rparr>)"
    by (simp add: BaseDetector_def stubClasses_def builtinClasses_def ci_performDetection_def
          detectCI_def env_simps ci_consts)
  from constructor_cache_false_disables_shared_cache [OF h, of stubClasses ?c] h s o r
  show ?thesis by simp
qed

subsection \<open>The asynchronous routine of one detector\<close>

lemma detectAsync_inherited:
  assumes "performAsyncDetection d = performDetection d"
  shows "detectAsync d env c now = detectSync d env c now"
  using assms
  by (simp add: detectAsync_def detectSync_def detectAsync_call_def detectAsync_resume_def
           split: prod.splits option.splits sum.splits)

lemma BaseDetector_inherits:
  "performAsyncDetection (BaseDetector nm routine opts)
     = performDetection (BaseDetector nm routine opts)"
  by (simp add: BaseDetector_def)

lemma resume_result: "fst (detectAsync_resume d s c now) = settlesTo s"
  by (simp add: detectAsync_resume_def settlesTo_def split: suspended.splits sum.splits)

lemma call_result:
  assumes "performAsyncDetection d = performDetection d"
  shows "settlesTo (fst (detectAsync_call d env c now)) = fst (detectSync d env c now)"
  using assms
  by (simp add: detectAsync_call_def detectSync_def settlesTo_def
           split: prod.splits option.splits sum.splits)

subsection \<open>A detector reads and writes its own key only\<close>

lemma lookupCached_frame:
  "enabled (snd (lookupCached d c now)) = enabled c"
  "k \<noteq> getCacheKey d \<Longrightarrow> store (snd (lookupCached d c now)) k = store c k"
  by (simp_all add: lookupCached_def cache_get_def split: option.splits)

lemma storeResult_frame:
  "enabled (storeResult d r c now) = enabled c"
  "k \<noteq> getCacheKey d \<Longrightarrow> store (storeResult d r c now) k = store c k"
  by (simp_all add: storeResult_def cache_set_def)

lemma detectSync_frame:
  "enabled (snd (detectSync d env c now)) = enabled c"
  "k \<noteq> getCacheKey d \<Longrightarrow> store (snd (detectSync d env c now)) k = store c k"
proof -
  obtain r c1 where l: "lookupCached d c now = (r, c1)" by (metis surj_pair)
  from lookupCached_frame(1) [of d c now] l have e: "enabled c1 = enabled c" by simp
  show "enabled (snd (detectSync d env c now)) = enabled c"
    by (simp add: detectSync_def l e storeResult_frame split: option.splits sum.splits)
  assume k: "k \<noteq> getCacheKey d"
  from lookupCached_frame(2) [OF k, of c now] l have s: "store c1 k = store c k" by simp
  show "store (snd (detectSync d env c now)) k = store c k"
    by (simp add: detectSync_def l s k storeResult_frame split: option.splits sum.splits)
qed

lemma detectAsync_call_frame:
  "enabled (snd (detectAsync_call d env c now)) = enabled c"
  "k \<noteq> getCacheKey d \<Longrightarrow> store (snd (detectAsync_call d env c now)) k = store c k"
proof -
  obtain r c1 where l: "lookupCached d c now = (r, c1)" by (metis surj_pair)
  from lookupCached_frame(1) [of d c now] l have e: "enabled c1 = enabled c" by simp
  show "enabled (snd (detectAsync_call d env c now)) = enabled c"
    by (simp add: detectAsync_call_def l e split: option.splits)
  assume k: "k \<noteq> getCacheKey d"
  from lookupCached_frame(2) [OF k, of c now] l have s: "store c1 k = store c k" by simp
  show "store (snd (detectAsync_call d env c now)) k = store c k"
    by (simp add: detectAsync_call_def l s split: option.splits)
qed

lemma lookupCached_cong:
  assumes "enabled c = enabled c'" and "store c (getCacheKey d) = store c' (getCacheKey d)"
  shows "fst (lookupCached d c now) = fst (lookupCached d c' now)"
  using assms by (simp add: lookupCached_def cache_get_def split: option.splits)

lemma detectSync_cong:
  assumes "enabled c = enabled c'" and "store c (getCacheKey d) = store c' (getCacheKey d)"
  shows "fst (detectSync d env c now) = fst (detectSync d env c' now)"
proof -
  obtain r c1 where l: "lookupCached d c now = (r, c1)" by (metis surj_pair)
  obtain r' c1' where l': "lookupCached d c' now = (r', c1')" by (metis surj_pair)
  from lookupCached_cong [OF assms, of now] l l' have "r' = r" by simp
  then show ?thesis by (simp add: detectSync_def l l' split: option.splits sum.splits)
qed

lemma detectAsync_call_cong:
  assumes "enabled c = enabled c'" and "store c (getCacheKey d) = store c' (getCacheKey d)"
  shows "fst (detectAsync_call d env c now) = fst (detectAsync_call d env c' now)"
proof -
  obtain r c1 where l: "lookupCached d c now = (r, c1)" by (metis surj_pair)
  obtain r' c1' where l': "lookupCached d c' now = (r', c1')" by (metis surj_pair)
  from lookupCached_cong [OF assms, of now] l l' have "r' = r" by simp
  then show ?thesis by (simp add: detectAsync_call_def l l' split: option.splits)
qed

subsection \<open>Promise.all\<close>

lemma promiseAll_values: "promiseAll (map Inr vs) = Inr vs"
  by (induction vs) auto

lemma promiseAll_length: "promiseAll outs = Inr vs \<Longrightarrow> length vs = length outs"
proof (induction outs arbitrary: vs)
  case Nil
  then show ?case by simp
next
  case (Cons out outs)
  then show ?case by (cases out) (auto split: sum.splits)
qed

lemma promiseAll_all_values: "promiseAll outs = Inr vs \<Longrightarrow> outs = map Inr vs"
proof (induction outs arbitrary: vs)
  case Nil
  then show ?case by simp
next
  case (Cons out outs)
  then show ?case by (cases out) (auto split: sum.splits)
qed

subsection \<open>The first pass\<close>

lemma callAll_sync:
  assumes "list_all (\<lambda>d. \<not> isOn (async (options d))) ds"
      and "distinct (map getCacheKey ds)"
  shows "case promiseAll (map (\<lambda>d. fst (detectSync d env c now)) ds) of
           Inl e \<Rightarrow> snd (fst (callAll ds env c now)) = Some e
         | Inr vs \<Rightarrow> fst (callAll ds env c now) = (map Value vs, None)"
  using assms
proof (induction ds arbitrary: c)
  case Nil
  then show ?case by simp
next
  case (Cons d ds)
  obtain r c1 where s: "detectSync d env c now = (r, c1)" by (metis surj_pair)
  show ?case
  proof (cases r)
    case (Inl e)
    with Cons.prems s show ?thesis by (simp add: detect_def)
  next
    case (Inr v)
    have same: "map (\<lambda>d'. fst (detectSync d' env c1 now)) ds
                  = map (\<lambda>d'. fst (detectSync d' env c now)) ds"
    proof (rule map_cong [OF refl])
      fix d' assume "d' \<in> set ds"
      then have "getCacheKey d' \<in> set (map getCacheKey ds)" by simp
      moreover from Cons.prems(2) have "getCacheKey d \<notin> set (map getCacheKey ds)" by simp
      ultimately have k: "getCacheKey d' \<noteq> getCacheKey d" by metis
      have "enabled c1 = enabled c" using detectSync_frame(1) [of d env c now] s by simp
      moreover have "store c1 (getCacheKey d') = store c (getCacheKey d')"
        using detectSync_frame(2) [OF k, of env c now] s by simp
      ultimately show "fst (detectSync d' env c1 now) = fst (detectSync d' env c now)"
        by (rule detectSync_cong)
    qed
    from Cons.prems have "list_all (\<lambda>d. \<not> isOn (async (options d))) ds"
      and "distinct (map getCacheKey ds)" by simp_all
    from Cons.IH [OF this, of c1] same
    have ih: "case promiseAll (map (\<lambda>d. fst (detectSync d env c now)) ds) of
           Inl e \<Rightarrow> snd (fst (callAll ds env c1 now)) = Some e
         | Inr vs \<Rightarrow> fst (callAll ds env c1 now) = (map Value vs, None)" by simp
    from Cons.prems(1) have m: "\<not> isOn (async (options d))" by simp
    show ?thesis
      using ih by (auto simp: detect_def s Inr m split: sum.splits prod.splits)
  qed
qed

lemma callAll_async:
  assumes "list_all (\<lambda>d. isOn (async (options d))) ds"
      and "distinct (map getCacheKey ds)"
  shows "fst (callAll ds env c now)
           = (map (\<lambda>d. Promise (fst (detectAsync_call d env c now))) ds, None)"
  using assms
proof (induction ds arbitrary: c)
  case Nil
  then show ?case by simp
next
  case (Cons d ds)
  obtain s c1 where a: "detectAsync_call d env c now = (s, c1)" by (metis surj_pair)
  have same: "map (\<lambda>d'. Promise (fst (detectAsync_call d' env c1 now))) ds
                = map (\<lambda>d'. Promise (fst (detectAsync_call d' env c now))) ds"
  proof (rule map_cong [OF refl])
    fix d' assume "d' \<in> set ds"
    then have "getCacheKey d' \<in> set (map getCacheKey ds)" by simp
    moreover from Cons.prems(2) have "getCacheKey d \<notin> set (map getCacheKey ds)" by simp
    ultimately have k: "getCacheKey d' \<noteq> getCacheKey d" by metis
    have "enabled c1 = enabled c" using detectAsync_call_frame(1) [of d env c now] a by simp
    moreover have "store c1 (getCacheKey d') = store c (getCacheKey d')"
      using detectAsync_call_frame(2) [OF k, of env c now] a by simp
    ultimately have "fst (detectAsync_call d' env c1 now) = fst (detectAsync_call d' env c now)"
      by (rule detectAsync_call_cong)
    then show "Promise (fst (detectAsync_call d' env c1 now))
                 = Promise (fst (detectAsync_call d' env c now))" by simp
  qed
  from Cons.prems have "list_all (\<lambda>d. isOn (async (options d))) ds"
    and "distinct (map getCacheKey ds)" by simp_all
  from Cons.IH [OF this, of c1] same
  have ih: "fst (callAll ds env c1 now)
              = (map (\<lambda>d. Promise (fst (detectAsync_call d env c now))) ds, None)" by simp
  from Cons.prems(1) have m: "isOn (async (options d))" by simp
  show ?case using ih by (auto simp: detect_def a m split: prod.splits)
qed

subsection \<open>The second pass\<close>

lemma settleAll_values:
  "length ds = length vs \<Longrightarrow> fst (settleAll (zip ds (map Value vs)) c now) = map Inr vs"
proof (induction ds vs arbitrary: c rule: list_induct2)
  case Nil
  then show ?case by simp
next
  case (Cons d ds v vs)
  obtain outs c2 where r: "settleAll (zip ds (map Value vs)) c now = (outs, c2)"
    by (metis surj_pair)
  with Cons.IH [of c] have "outs = map Inr vs" by simp
  then show ?case by (simp add: r)
qed

lemma settleAll_promises:
  "fst (settleAll (zip ds (map (\<lambda>d. Promise (g d)) ds)) c now) = map (\<lambda>d. settlesTo (g d)) ds"
proof -
  have "fst (settleAll (zip xs (map (\<lambda>d. Promise (g d)) xs)) c now)
          = map (\<lambda>d. settlesTo (g d)) xs" for xs c
  proof (induction xs arbitrary: c)
    case Nil
    then show ?case by simp
  next
    case (Cons d xs)
    obtain out c1 where r: "detectAsync_resume d (g d) c now = (out, c1)" by (metis surj_pair)
    with resume_result [of d "g d" c now] have o: "out = settlesTo (g d)" by simp
    obtain outs c2 where
      q: "settleAll (zip xs (map (\<lambda>d. Promise (g d)) xs)) c1 now = (outs, c2)"
      by (metis surj_pair)
    with Cons [of c1] have "outs = map (\<lambda>d. settlesTo (g d)) xs" by simp
    then show ?case by (simp add: r o q)
  qed
  then show ?thesis .
qed

subsection \<open>Both passes\<close>

lemma two_passes:
  assumes "uniformMode ds"
      and "distinct (map getCacheKey ds)"
      and "list_all (\<lambda>d. performAsyncDetection d = performDetection d) ds"
      and "callAll ds env c now = ((rs, err), c1)"
      and "settleAll (zip ds rs) c1 now = (outs, c2)"
  shows "case err of
           Some e \<Rightarrow> promiseAll (map (\<lambda>d. fst (detectSync d env c now)) ds) = Inl e
         | None \<Rightarrow> length rs = length ds
                    \<and> map awaited rs = map (\<lambda>d. fst (detectSync d env c now)) ds
                    \<and> outs = map (\<lambda>d. fst (detectSync d env c now)) ds"
proof (cases "list_all (\<lambda>d. isOn (async (options d))) ds")
  case True
  let ?g = "\<lambda>d. fst (detectAsync_call d env c now)"
  from callAll_async [OF True assms(2), of env c now] assms(4)
  have rs: "rs = map (\<lambda>d. Promise (?g d)) ds" and err: "err = None" by simp_all
  have o: "map (\<lambda>d. settlesTo (?g d)) ds = map (\<lambda>d. fst (detectSync d env c now)) ds"
  proof (rule map_cong [OF refl])
    fix d assume "d \<in> set ds"
    with assms(3) have "performAsyncDetection d = performDetection d"
      by (simp add: list_all_iff)
    then show "settlesTo (?g d) = fst (detectSync d env c now)" by (rule call_result)
  qed
  from settleAll_promises [of ds ?g c1 now] assms(5) rs
  have "outs = map (\<lambda>d. settlesTo (?g d)) ds" by simp
  with o have outs: "outs = map (\<lambda>d. fst (detectSync d env c now)) ds" by simp
  have "map awaited rs = map (\<lambda>d. settlesTo (?g d)) ds"
    by (simp add: rs awaited_def)
  with o have aw: "map awaited rs = map (\<lambda>d. fst (detectSync d env c now)) ds" by simp
  show ?thesis by (simp add: err outs aw) (simp add: rs)
next
  case False
  with assms(1) have sync: "list_all (\<lambda>d. \<not> isOn (async (options d))) ds"
    by (simp add: uniformMode_def)
  let ?O = "map (\<lambda>d. fst (detectSync d env c now)) ds"
  note first = callAll_sync [OF sync assms(2), of env c now]
  show ?thesis
  proof (cases "promiseAll ?O")
    case (Inl e)
    with first assms(4) have "err = Some e" by simp
    with Inl show ?thesis by simp
  next
    case (Inr vs)
    with first assms(4) have rs: "rs = map Value vs" and err: "err = None" by simp_all
    from promiseAll_length [OF Inr] have len: "length ds = length vs" by simp
    from settleAll_values [OF len, of c1 now] assms(5) rs have outs: "outs = map Inr vs" by simp
    from promiseAll_all_values [OF Inr] have all: "?O = map Inr vs" .
    have aw: "map awaited rs = map Inr vs" by (simp add: rs awaited_def)
    show ?thesis by (simp add: err outs aw all [symmetric]) (simp add: rs len)
  qed
qed

subsection \<open>The facade\<close>

lemma seven_elements:
  assumes "length xs = 7"
  shows "[xs ! 0, xs ! 1, xs ! 2, xs ! 3, xs ! 4, xs ! 5, xs ! 6] = xs"
proof -
  from assms obtain a b c d e f g where "xs = [a, b, c, d, e, f, g]"
    by (auto simp: numeral_eq_Suc length_Suc_conv)
  then show ?thesis by simp
qed

lemma awaitFields_toEnvironmentInfo:
  assumes "length rs = 7"
  shows "awaitFields (toEnvironmentInfo rs)
           = (case promiseAll (map awaited rs) of
                Inl e \<Rightarrow> Inl e
              | Inr vs \<Rightarrow> Inr (toEnvironmentInfo vs))"
proof -
  have "[awaited (rs ! 0), awaited (rs ! 1), awaited (rs ! 2), awaited (rs ! 3),
         awaited (rs ! 4), awaited (rs ! 5), awaited (rs ! 6)]
          = map awaited [rs ! 0, rs ! 1, rs ! 2, rs ! 3, rs ! 4, rs ! 5, rs ! 6]" by simp
  also have "\<dots> = map awaited rs" by (simp only: seven_elements [OF assms])
  finally show ?thesis by (simp add: awaitFields_def toEnvironmentInfo_def)
qed

lemma toEnvironmentInfo_values:
  assumes "length vs = 7"
  shows "toEnvironmentInfo (map Value vs)
           = \<lparr>os = Value (os (toEnvironmentInfo vs)),
              container = Value (container (toEnvironmentInfo vs)),
              ci = Value (ci (toEnvironmentInfo vs)),
              cloud = Value (cloud (toEnvironmentInfo vs)),
              node = Value (node (toEnvironmentInfo vs)),
              privileges = Value (privileges (toEnvironmentInfo vs)),
              mode = Value (mode (toEnvironmentInfo vs))\<rparr>"
  using assms by (simp add: toEnvironmentInfo_def)

lemma length_detectorsInOrder: "length (detectorsInOrder f) = 7"
  by (simp add: detectorsInOrder_def)

lemma getEnvironmentInfoAsync_result:
  assumes "uniformMode (detectorsInOrder f)"
      and "distinct (map getCacheKey (detectorsInOrder f))"
      and "list_all (\<lambda>d. performAsyncDetection d = performDetection d) (detectorsInOrder f)"
  shows "fst (getEnvironmentInfoAsync f env c now)
           = (case promiseAll (map (\<lambda>d. fst (detectSync d env c now)) (detectorsInOrder f)) of
                Inl e \<Rightarrow> Inl e
              | Inr vs \<Rightarrow> Inr (toEnvironmentInfo vs))"
proof -
  obtain rs err c1 where a: "callAll (detectorsInOrder f) env c now = ((rs, err), c1)"
    by (metis surj_pair)
  obtain outs c2 where b: "settleAll (zip (detectorsInOrder f) rs) c1 now = (outs, c2)"
    by (metis surj_pair)
  note t = two_passes [OF assms a b]
  show ?thesis
  proof (cases err)
    case None
    with t have "outs = map (\<lambda>d. fst (detectSync d env c now)) (detectorsInOrder f)" by simp
    then show ?thesis
      by (simp add: getEnvironmentInfoAsync_def a b None split: sum.splits)
  next
    case (Some e)
    with t show ?thesis by (simp add: getEnvironmentInfoAsync_def a b)
  qed
qed

lemma getEnvironmentInfo_result:
  assumes "uniformMode (detectorsInOrder f)"
      and "distinct (map getCacheKey (detectorsInOrder f))"
      and "list_all (\<lambda>d. performAsyncDetection d = performDetection d) (detectorsInOrder f)"
  shows "(case fst (getEnvironmentInfo f env c now) of
            Inl e \<Rightarrow> Inl e
          | Inr r \<Rightarrow> awaitFields r)
           = (case promiseAll (map (\<lambda>d. fst (detectSync d env c now)) (detectorsInOrder f)) of
                Inl e \<Rightarrow> Inl e
              | Inr vs \<Rightarrow> Inr (toEnvironmentInfo vs))"
proof -
  obtain rs err c1 where a: "callAll (detectorsInOrder f) env c now = ((rs, err), c1)"
    by (metis surj_pair)
  obtain outs c2 where b: "settleAll (zip (detectorsInOrder f) rs) c1 now = (outs, c2)"
    by (metis surj_pair)
  note t = two_passes [OF assms a b]
  show ?thesis
  proof (cases err)
    case None
    with t have len: "length rs = 7"
      and aw: "map awaited rs = map (\<lambda>d. fst (detectSync d env c now)) (detectorsInOrder f)"
      by (simp_all add: length_detectorsInOrder)
    show ?thesis
      by (simp add: getEnvironmentInfo_def a b None awaitFields_toEnvironmentInfo [OF len] aw)
  next
    case (Some e)
    with t show ?thesis by (simp add: getEnvironmentInfo_def a b)
  qed
qed

lemma getEnvironmentInfo_sync_mode:
  assumes "list_all (\<lambda>d. \<not> isOn (async (options d))) (detectorsInOrder f)"
      and "distinct (map getCacheKey (detectorsInOrder f))"
  shows "fst (getEnvironmentInfo f env c now)
           = (case promiseAll (map (\<lambda>d. fst (detectSync d env c now)) (detectorsInOrder f)) of
                Inl e \<Rightarrow> Inl e
              | Inr vs \<Rightarrow> Inr (toEnvironmentInfo (map Value vs)))"
proof -
  obtain rs err c1 where a: "callAll (detectorsInOrder f) env c now = ((rs, err), c1)"
    by (metis surj_pair)
  obtain outs c2 where b: "settleAll (zip (detectorsInOrder f) rs) c1 now = (outs, c2)"
    by (metis surj_pair)
  note first = callAll_sync [OF assms, of env c now]
  show ?thesis
  proof (cases "promiseAll (map (\<lambda>d. fst (detectSync d env c now)) (detectorsInOrder f))")
    case (Inl e)
    with first a have "err = Some e" by simp
    then show ?thesis by (simp add: getEnvironmentInfo_def a b Inl)
  next
    case (Inr vs)
    with first a have rs: "rs = map Value vs" and err: "err = None" by simp_all
    show ?thesis by (simp add: getEnvironmentInfo_def a b Inr err) (simp add: rs)
  qed
qed

subsection \<open>The facade that the constructor builds\<close>

lemma instantiate_mode:
  "list_all (\<lambda>d. isOn (async (options d)) = (async opts = Given True))
     (detectorsInOrder (instantiate K opts))"
  by (simp add: detectorsInOrder_def instantiate_def BaseDetector_def withDefaults_def isOn_def
           split: field.splits)

lemma instantiate_uniform: "uniformMode (detectorsInOrder (instantiate K opts))"
  using instantiate_mode [of opts K]
  by (cases "async opts = Given True") (simp_all add: uniformMode_def list_all_iff)

lemma instantiate_distinct: "distinct (map getCacheKey (detectorsInOrder (instantiate K opts)))"
  by (simp add: detectorsInOrder_def instantiate_def BaseDetector_def getCacheKey_def)

lemma instantiate_inherits:
  "list_all (\<lambda>d. performAsyncDetection d = performDetection d)
     (detectorsInOrder (instantiate K opts))"
  by (simp add: detectorsInOrder_def instantiate_def BaseDetector_def)

lemma BaseDetector_outcome:
  assumes "cache opts' = cache opts"
  shows "fst (detectSync (BaseDetector nm routine opts') env c now)
           = fst (detectSync (BaseDetector nm routine opts) env c now)"
  using assms
  by (simp add: detectSync_def lookupCached_def BaseDetector_def withDefaults_def getCacheKey_def
           split: prod.splits option.splits sum.splits field.splits)

lemma instantiate_outcomes:
  assumes "cache opts' = cache opts"
  shows "map (\<lambda>d. fst (detectSync d env c now)) (detectorsInOrder (instantiate K opts'))
           = map (\<lambda>d. fst (detectSync d env c now)) (detectorsInOrder (instantiate K opts))"
  by (simp add: detectorsInOrder_def instantiate_def BaseDetector_outcome [OF assms])

text \<open>The full scan of \<open>bare_linux\<close> in asynchronous mode.\<close>

lemma bare_linux_detections:
  "os_performDetection bare_linux
     = \<lparr>platform = ''linux'', type = os_linux, version = ''#1 SMP'', release = ''5.15.0'',
        arch = ''x64'', isWindows = False, isMacOS = False, isLinux = True\<rparr>"
  "container_performDetection bare_linux
     = Inr \<lparr>isContainer = False, isDocker = False, isWSL = False, isKubernetes = False,
            containerType = None, wslVersion = None, wslDistro = None\<rparr>"
  "ci_performDetection bare_linux = \<lparr>isCI = False, name = None, isPR = None, provider = None\<rparr>"
    apply (simp add: os_performDetection_def os_classify_def bare_linux_def)
   apply (simp add: container_run_simps splitDash.simps)
  apply (simp add: ci_performDetection_def detectCI_def env_simps ci_consts)
  done

lemma bare_linux_async_run:
  "fst (getEnvironmentInfoAsync (instantiate stubClasses (no_options\<lparr>async := Given True\<rparr>))
          bare_linux new_Cache 0)
     = Inr bare_linux_info"
  by (simp add: getEnvironmentInfoAsync_def instantiate_def detectorsInOrder_def BaseDetector_def
        withDefaults_def no_options_def isOn_def argument_def detect_def detectAsync_call_def
        detectAsync_resume_def lookupCached_def storeResult_def getCacheKey_def cache_get_def
        cache_set_def
        new_Cache_def stubClasses_def builtinClasses_def bare_linux_detections
        toEnvironmentInfo_def bare_linux_info_def)

text \<open>
  C8. A detector that does not override the asynchronous detection routine returns from
  \<open>detectAsync\<close> what it returns from \<open>detectSync\<close>, and leaves the cache in the same
  state; the routine that \<open>BaseDetector\<close> provides is the synchronous one. For the
  facade, on the same environment, cache and clock: awaiting the record of
  \<open>getEnvironmentInfo\<close> gives what \<open>getEnvironmentInfoAsync\<close> gives; the result of
  \<open>getEnvironmentInfoAsync\<close> does not depend on the \<open>async\<close> option; and in synchronous
  mode \<open>getEnvironmentInfo\<close> returns the very record that \<open>getEnvironmentInfoAsync\<close>
  resolves to, in either mode.
\<close>

theorem async_path_agrees_with_sync_path:
  fixes d :: "'v Detector" and K :: "'v DetectorClasses" and c :: "'v Cache"
  shows "(performAsyncDetection d = performDetection d
            \<longrightarrow> detectAsync d env c now = detectSync d env c now)
     \<and> performAsyncDetection (BaseDetector nm routine opts)
         = performDetection (BaseDetector nm routine opts)
     \<and> detectAsync (BaseDetector nm routine opts) env c now
         = detectSync (BaseDetector nm routine opts) env c now
     \<and> fst (getEnvironmentInfoAsync (instantiate K opts) env c now)
         = (case fst (getEnvironmentInfo (instantiate K opts) env c now) of
              Inl e \<Rightarrow> Inl e
            | Inr r \<Rightarrow> awaitFields r)
     \<and> (cache opts' = cache opts
          \<longrightarrow> fst (getEnvironmentInfoAsync (instantiate K opts') env c now)
              = fst (getEnvironmentInfoAsync (instantiate K opts) env c now))
     \<and> (cache opts' = cache opts \<and> async opts \<noteq> Given True
          \<longrightarrow> fst (getEnvironmentInfo (instantiate K opts) env c now)
              = (case fst (getEnvironmentInfoAsync (instantiate K opts') env c now) of
                   Inl e \<Rightarrow> Inl e
                 | Inr info \<Rightarrow>
                     Inr \<lparr>os = Value (os info), container = Value (container info),
                          ci = Value (ci info), cloud = Value (cloud info),
                          node = Value (node info), privileges = Value (privileges info),
                          mode = Value (mode info)\<rparr>))"
proof -
  let ?O = "\<lambda>q. promiseAll (map (\<lambda>d. fst (detectSync d env c now))
                               (detectorsInOrder (instantiate K q)))"
  have one: "performAsyncDetection d = performDetection d
               \<longrightarrow> detectAsync d env c now = detectSync d env c now"
    by (simp add: detectAsync_inherited)
  have two: "performAsyncDetection (BaseDetector nm routine opts)
               = performDetection (BaseDetector nm routine opts)"
    by (rule BaseDetector_inherits)
  have three: "detectAsync (BaseDetector nm routine opts) env c now
                 = detectSync (BaseDetector nm routine opts) env c now"
    using two by (rule detectAsync_inherited)
  have A: "fst (getEnvironmentInfoAsync (instantiate K q) env c now)
             = (case ?O q of Inl e \<Rightarrow> Inl e | Inr vs \<Rightarrow> Inr (toEnvironmentInfo vs))" for q
    by (rule getEnvironmentInfoAsync_result
          [OF instantiate_uniform instantiate_distinct instantiate_inherits])
  have S: "(case fst (getEnvironmentInfo (instantiate K q) env c now) of
              Inl e \<Rightarrow> Inl e
            | Inr r \<Rightarrow> awaitFields r)
             = (case ?O q of Inl e \<Rightarrow> Inl e | Inr vs \<Rightarrow> Inr (toEnvironmentInfo vs))" for q
    by (rule getEnvironmentInfo_result
          [OF instantiate_uniform instantiate_distinct instantiate_inherits])
  have four: "fst (getEnvironmentInfoAsync (instantiate K opts) env c now)
         = (case fst (getEnvironmentInfo (instantiate K opts) env c now) of
              Inl e \<Rightarrow> Inl e
            | Inr r \<Rightarrow> awaitFields r)"
    by (simp only: A S)
  have five: "cache opts' = cache opts
          \<longrightarrow> fst (getEnvironmentInfoAsync (instantiate K opts') env c now)
              = fst (getEnvironmentInfoAsync (instantiate K opts) env c now)"
  proof
    assume "cache opts' = cache opts"
    from instantiate_outcomes [OF this, of env c now K]
    have "?O opts' = ?O opts" by (rule arg_cong)
    then show "fst (getEnvironmentInfoAsync (instantiate K opts') env c now)
              = fst (getEnvironmentInfoAsync (instantiate K opts) env c now)"
      by (simp only: A)
  qed
  have six: "cache opts' = cache opts \<and> async opts \<noteq> Given True
          \<longrightarrow> fst (getEnvironmentInfo (instantiate K opts) env c now)
              = (case fst (getEnvironmentInfoAsync (instantiate K opts') env c now) of
                   Inl e \<Rightarrow> Inl e
                 | Inr info \<Rightarrow>
                     Inr \<lparr>os = Value (os info), container = Value (container info),
                          ci = Value (ci info), cloud = Value (cloud info),
                          node = Value (node info), privileges = Value (privileges info),
                          mode = Value (mode info)\<rparr>)"
  proof
    assume h: "cache opts' = cache opts \<and> async opts \<noteq> Given True"
    then have "cache opts' = cache opts" by simp
    from instantiate_outcomes [OF this, of env c now K]
    have same: "?O opts' = ?O opts" by (rule arg_cong)
    from h instantiate_mode [of opts K]
    have sync: "list_all (\<lambda>d. \<not> isOn (async (options d))) (detectorsInOrder (instantiate K opts))"
      by (simp add: list_all_iff)
    note G = getEnvironmentInfo_sync_mode [OF sync instantiate_distinct, of env c now]
    show "fst (getEnvironmentInfo (instantiate K opts) env c now)
              = (case fst (getEnvironmentInfoAsync (instantiate K opts') env c now) of
                   Inl e \<Rightarrow> Inl e
                 | Inr info \<Rightarrow>
                     Inr \<lparr>os = Value (os info), container = Value (container info),
                          ci = Value (ci info), cloud = Value (cloud info),
                          node = Value (node info), privileges = Value (privileges info),
                          mode = Value (mode info)\<rparr>)"
    proof (cases "?O opts")
      case (Inl e)
      then show ?thesis by (simp add: G A same)
    next
      case (Inr vs)
      from promiseAll_length [OF Inr] have "length vs = 7"
        by (simp add: length_detectorsInOrder)
      from toEnvironmentInfo_values [OF this] show ?thesis by (simp add: G A same Inr)
    qed
  qed
  from one two three four five six show ?thesis by blast
qed

theorem async_path_agrees_with_sync_path_witness:
  "cache (no_options\<lparr>async := Given True\<rparr>) = cache no_options
   \<and> async no_options \<noteq> Given True
   \<and> fst (getEnvironmentInfoAsync (instantiate stubClasses (no_options\<lparr>async := Given True\<rparr>))
            bare_linux new_Cache 0)
       = Inr bare_linux_info
   \<and> fst (getEnvironmentInfo (instantiate stubClasses no_options) bare_linux new_Cache 0)
       = Inr \<lparr>os = Value (os bare_linux_info), container = Value (container bare_linux_info),
              ci = Value (ci bare_linux_info), cloud = Value (cloud bare_linux_info),
              node = Value (node bare_linux_info),
              privileges = Value (privileges bare_linux_info),
              mode = Value (mode bare_linux_info)\<rparr>
   \<and> performAsyncDetection (BaseDetector ''os'' (OSDetector stubClasses) no_options)
       = performDetection (BaseDetector ''os'' (OSDetector stubClasses) no_options)
   \<and> detectAsync (BaseDetector ''os'' (OSDetector stubClasses) no_options) bare_linux new_Cache 0
       = detectSync (BaseDetector ''os'' (OSDetector stubClasses) no_options) bare_linux
           new_Cache 0"
proof -
  let ?d = "BaseDetector ''os'' (OSDetector stubClasses) no_options"
  have a: "cache (no_options\<lparr>async := Given True\<rparr>) = cache no_options" by simp
  have b: "async no_options \<noteq> Given True" by (simp add: no_options_def)
  have e: "performAsyncDetection ?d = performDetection ?d" by (simp add: BaseDetector_def)
  note t = async_path_agrees_with_sync_path
             [of ?d bare_linux new_Cache 0 "''os''" "OSDetector stubClasses" no_options
                 stubClasses "no_options\<lparr>async := Given True\<rparr>"]
  from t e have one: "detectAsync ?d bare_linux new_Cache 0 = detectSync ?d bare_linux new_Cache 0"
    by blast
  from t a b have
    "fst (getEnvironmentInfo (instantiate stubClasses no_options) bare_linux new_Cache 0)
       = (case fst (getEnvironmentInfoAsync
                      (instantiate stubClasses (no_options\<lparr>async := Given True\<rparr>))
                      bare_linux new_Cache 0) of
            Inl e \<Rightarrow> Inl e
          | Inr info \<Rightarrow>
              Inr \<lparr>os = Value (os info), container = Value (container info),
                   ci = Value (ci info), cloud = Value (cloud info),
                   node = Value (node info), privileges = Value (privileges info),
                   mode = Value (mode info)\<rparr>)"
    by blast
  then have two:
    "fst (getEnvironmentInfo (instantiate stubClasses no_options) bare_linux new_Cache 0)
       = Inr \<lparr>os = Value (os bare_linux_info), container = Value (container bare_linux_info),
              ci = Value (ci bare_linux_info), cloud = Value (cloud bare_linux_info),
              node = Value (node bare_linux_info),
              privileges = Value (privileges bare_linux_info),
              mode = Value (mode bare_linux_info)\<rparr>"
    by (simp only: bare_linux_async_run sum.case)
  from a b e one two bare_linux_async_run show ?thesis by blast
qed

end
